theory Spec2Isabelle
  imports Complex_Main "HOL-Library.Log_Nat"
begin

section \<open>MediTrack: the entity layer of backend.py\<close>

text \<open>
  The development embeds \<^verbatim>\<open>src/backend.py\<close>. Classes become records whose fields carry
  the types of the source's annotations (\<^verbatim>\<open>stock: int\<close> is a Python integer, hence
  \<^typ>\<open>int\<close>), methods that mutate \<^verbatim>\<open>self\<close> return the updated record, and every exception
  is a value of \<open>py_error\<close>.
\<close>

subsection \<open>Exceptions and dictionary values\<close>

text \<open>
  The exceptions the modelled code can raise. \<open>IllTyped\<close> is not a Python exception: it marks
  a dictionary whose values are not of the types the class annotations assume. Python stores
  such a value unchecked (or fails later with a TypeError); the typed records below have no
  counterpart for it, so \<open>from_dict\<close> answers \<open>Inl IllTyped\<close> there.
\<close>

datatype py_error =
  KeyError | ValueError | TypeError | AttributeError | OverflowError | ZeroDivisionError | IllTyped

text \<open>
  The values of a JSON document as \<^verbatim>\<open>json.load\<close> returns them. A dictionary is an
  association list in insertion order with pairwise distinct keys. JSON numbers with a
  fraction are left out: no field of the program holds one.
\<close>

datatype pyval =
    PNone
  | PBool bool
  | PInt int
  | PStr string
  | PList "pyval list"
  | PDict "(string \<times> pyval) list"

type_synonym pydict = "(string \<times> pyval) list"

text \<open>\<^verbatim>\<open>d[k]\<close>: a missing key raises KeyError.\<close>

definition dict_item :: "pydict \<Rightarrow> string \<Rightarrow> py_error + pyval" where
  "dict_item d k = (case map_of d k of None \<Rightarrow> Inl KeyError | Some v \<Rightarrow> Inr v)"

text \<open>\<^verbatim>\<open>d.get(k, default)\<close>.\<close>

definition dict_get :: "pydict \<Rightarrow> string \<Rightarrow> pyval \<Rightarrow> pyval" where
  "dict_get d k dflt = (case map_of d k of None \<Rightarrow> dflt | Some v \<Rightarrow> v)"

text \<open>\<^verbatim>\<open>d[k] = v\<close>: an existing key keeps its position, a new key is appended.\<close>

fun dict_set :: "pydict \<Rightarrow> string \<Rightarrow> pyval \<Rightarrow> pydict" where
  "dict_set [] k v = [(k, v)]"
| "dict_set ((k', v') # d) k v = (if k' = k then (k, v) # d else (k', v') # dict_set d k v)"

text \<open>Reading a dictionary value at the type a field is annotated with.\<close>

fun as_str :: "pyval \<Rightarrow> py_error + string" where
  "as_str (PStr s) = Inr s"
| "as_str _ = Inl IllTyped"

fun as_int :: "pyval \<Rightarrow> py_error + int" where
  "as_int (PInt n) = Inr n"
| "as_int _ = Inl IllTyped"

fun as_bool :: "pyval \<Rightarrow> py_error + bool" where
  "as_bool (PBool b) = Inr b"
| "as_bool _ = Inl IllTyped"

fun as_dict :: "pyval \<Rightarrow> py_error + pydict" where
  "as_dict (PDict d) = Inr d"
| "as_dict _ = Inl IllTyped"

fun as_list :: "pyval \<Rightarrow> py_error + pyval list" where
  "as_list (PList xs) = Inr xs"
| "as_list _ = Inl IllTyped"

text \<open>Sequencing of computations that may raise: the first exception wins.\<close>

definition bind_err :: "py_error + 'a \<Rightarrow> ('a \<Rightarrow> py_error + 'b) \<Rightarrow> py_error + 'b" where
  "bind_err r f = (case r of Inl e \<Rightarrow> Inl e | Inr x \<Rightarrow> f x)"

text \<open>A list comprehension whose body may raise: elements are evaluated left to right.\<close>

fun map_err :: "('a \<Rightarrow> py_error + 'b) \<Rightarrow> 'a list \<Rightarrow> py_error + 'b list" where
  "map_err f [] = Inr []"
| "map_err f (x # xs) =
     (case f x of
        Inl e \<Rightarrow> Inl e
      | Inr y \<Rightarrow> (case map_err f xs of Inl e \<Rightarrow> Inl e | Inr ys \<Rightarrow> Inr (y # ys)))"

subsection \<open>Builtins and the clock\<close>

text \<open>
  The library functions the program calls are parameters of the model, so that every
  theorem holds whatever they compute:
  \<^item> \<open>str_strip s\<close> is \<^verbatim>\<open>s.strip()\<close>;
  \<^item> \<open>str_isdigit s\<close> is \<^verbatim>\<open>s.isdigit()\<close>;
  \<^item> \<open>int_of_str s\<close> is \<^verbatim>\<open>int(s)\<close>, \<open>None\<close> when it raises ValueError;
  \<^item> \<open>strptime_ymd s\<close> is the day number (\<^verbatim>\<open>toordinal()\<close>) of
    \<^verbatim>\<open>datetime.strptime(s, "%Y-%m-%d").date()\<close>, \<open>None\<close> when it raises ValueError.
\<close>

record builtins =
  str_strip :: "string \<Rightarrow> string"
  str_isdigit :: "string \<Rightarrow> bool"
  int_of_str :: "string \<Rightarrow> int option"
  strptime_ymd :: "string \<Rightarrow> int option"

text \<open>
  What one operation reads from the system clock: the day number of \<^verbatim>\<open>date.today()\<close>,
  and the two formatted dates \<^verbatim>\<open>datetime.now().strftime("%Y-%m-%d")\<close> and
  \<^verbatim>\<open>(datetime.now() + timedelta(days=30)).strftime("%Y-%m-%d")\<close>.
\<close>

record clock =
  today :: int
  now_ymd :: string
  now_plus30_ymd :: string

subsection \<open>Appointment\<close>

record appointment =
  title :: string
  doctor :: string
  date :: string
  time :: string
  location :: string
  completed :: bool

text \<open>\<^verbatim>\<open>Appointment.__init__\<close>: \<^verbatim>\<open>location\<close> defaults to the empty string at the call
  sites that omit it; \<^verbatim>\<open>completed\<close> starts as False.\<close>

definition Appointment :: "string \<Rightarrow> string \<Rightarrow> string \<Rightarrow> string \<Rightarrow> string \<Rightarrow> appointment" where
  "Appointment title' doctor' date_str time_str location' =
     \<lparr>title = title', doctor = doctor', date = date_str, time = time_str,
      location = location', completed = False\<rparr>"

text \<open>\<^verbatim>\<open>Appointment.days_until\<close>: strptime raises ValueError on a string that is not a date.\<close>

definition days_until :: "builtins \<Rightarrow> clock \<Rightarrow> appointment \<Rightarrow> py_error + int" where
  "days_until B clk a =
     (case strptime_ymd B (date a) of
        None \<Rightarrow> Inl ValueError
      | Some appt_date \<Rightarrow> Inr (appt_date - today clk))"

definition appointment_to_dict :: "appointment \<Rightarrow> pydict" where
  "appointment_to_dict a =
     [(''title'', PStr (title a)),
      (''doctor'', PStr (doctor a)),
      (''date'', PStr (date a)),
      (''time'', PStr (time a)),
      (''location'', PStr (location a)),
      (''completed'', PBool (completed a))]"

definition appointment_from_dict :: "pydict \<Rightarrow> py_error + appointment" where
  "appointment_from_dict data =
     bind_err (bind_err (dict_item data ''title'') as_str) (\<lambda>t.
     bind_err (bind_err (dict_item data ''doctor'') as_str) (\<lambda>dr.
     bind_err (bind_err (dict_item data ''date'') as_str) (\<lambda>dt.
     bind_err (bind_err (dict_item data ''time'') as_str) (\<lambda>tm.
     bind_err (as_str (dict_get data ''location'' (PStr ''''))) (\<lambda>loc.
     bind_err (as_bool (dict_get data ''completed'' (PBool False))) (\<lambda>c.
       Inr ((Appointment t dr dt tm loc)\<lparr>completed := c\<rparr>)))))))"

subsection \<open>Medicine\<close>

record medicine =
  name :: string
  dosage :: string
  frequency :: string
  start_date :: string
  end_date :: string
  stock :: int
  taken_today :: int
  missed_today :: int

text \<open>\<^verbatim>\<open>Medicine.__init__\<close>: both counters start at 0.\<close>

definition Medicine :: "string \<Rightarrow> string \<Rightarrow> string \<Rightarrow> string \<Rightarrow> string \<Rightarrow> int \<Rightarrow> medicine" where
  "Medicine name' dosage' frequency' start_date' end_date' stock' =
     \<lparr>name = name', dosage = dosage', frequency = frequency', start_date = start_date',
      end_date = end_date', stock = stock', taken_today = 0, missed_today = 0\<rparr>"

text \<open>\<^verbatim>\<open>Medicine.take_dose\<close>: the returned flag, and the medicine after the call.\<close>

definition take_dose :: "medicine \<Rightarrow> bool \<times> medicine" where
  "take_dose m =
     (if stock m \<le> 0 then (False, m)
      else (True, m\<lparr>stock := stock m - 1, taken_today := taken_today m + 1\<rparr>))"

definition medicine_to_dict :: "medicine \<Rightarrow> pydict" where
  "medicine_to_dict m =
     [(''name'', PStr (name m)),
      (''dosage'', PStr (dosage m)),
      (''frequency'', PStr (frequency m)),
      (''start_date'', PStr (start_date m)),
      (''end_date'', PStr (end_date m)),
      (''stock'', PInt (stock m)),
      (''taken_today'', PInt (taken_today m)),
      (''missed_today'', PInt (missed_today m))]"

definition medicine_from_dict :: "pydict \<Rightarrow> py_error + medicine" where
  "medicine_from_dict data =
     bind_err (bind_err (dict_item data ''name'') as_str) (\<lambda>n.
     bind_err (bind_err (dict_item data ''dosage'') as_str) (\<lambda>dg.
     bind_err (bind_err (dict_item data ''frequency'') as_str) (\<lambda>fr.
     bind_err (bind_err (dict_item data ''start_date'') as_str) (\<lambda>sd.
     bind_err (bind_err (dict_item data ''end_date'') as_str) (\<lambda>ed.
     bind_err (bind_err (dict_item data ''stock'') as_int) (\<lambda>st.
     bind_err (as_int (dict_get data ''taken_today'' (PInt 0))) (\<lambda>tk.
     bind_err (as_int (dict_get data ''missed_today'' (PInt 0))) (\<lambda>ms.
       Inr ((Medicine n dg fr sd ed st)\<lparr>taken_today := tk, missed_today := ms\<rparr>)))))))))"

subsection \<open>User\<close>

text \<open>The attribute \<^verbatim>\<open>name\<close> of the class User is the field \<open>full_name\<close> here: the
  record of a medicine already has a field \<open>name\<close>.\<close>

record user =
  username :: string
  password :: string
  full_name :: string
  medicines :: "medicine list"
  appointments :: "appointment list"
  emergency_contact :: string
  emergency_phone :: string

definition User :: "string \<Rightarrow> string \<Rightarrow> string \<Rightarrow> user" where
  "User username' password' name' =
     \<lparr>username = username', password = password', full_name = name', medicines = [],
      appointments = [], emergency_contact = '''', emergency_phone = ''''\<rparr>"

definition user_to_dict :: "user \<Rightarrow> pydict" where
  "user_to_dict u =
     [(''username'', PStr (username u)),
      (''password'', PStr (password u)),
      (''name'', PStr (full_name u)),
      (''medicines'', PList (map (\<lambda>m. PDict (medicine_to_dict m)) (medicines u))),
      (''appointments'', PList (map (\<lambda>a. PDict (appointment_to_dict a)) (appointments u))),
      (''emergency_contact'', PStr (emergency_contact u)),
      (''emergency_phone'', PStr (emergency_phone u))]"

definition user_from_dict :: "pydict \<Rightarrow> py_error + user" where
  "user_from_dict data =
     bind_err (bind_err (dict_item data ''username'') as_str) (\<lambda>un.
     bind_err (bind_err (dict_item data ''password'') as_str) (\<lambda>pw.
     bind_err (bind_err (dict_item data ''name'') as_str) (\<lambda>nm.
     bind_err (bind_err (as_list (dict_get data ''medicines'' (PList [])))
                 (map_err (\<lambda>m. bind_err (as_dict m) medicine_from_dict))) (\<lambda>ms.
     bind_err (bind_err (as_list (dict_get data ''appointments'' (PList [])))
                 (map_err (\<lambda>a. bind_err (as_dict a) appointment_from_dict))) (\<lambda>as.
     bind_err (as_str (dict_get data ''emergency_contact'' (PStr ''''))) (\<lambda>ec.
     bind_err (as_str (dict_get data ''emergency_phone'' (PStr ''''))) (\<lambda>ep.
       Inr ((User un pw nm)\<lparr>medicines := ms, appointments := as,
              emergency_contact := ec, emergency_phone := ep\<rparr>))))))))"

section \<open>The persistence layer\<close>

text \<open>
  The database file \<^verbatim>\<open>meditrack_simple.json\<close>: absent, holding a text that
  \<^verbatim>\<open>json.load\<close> rejects (an empty or incomplete file among them), or holding a JSON
  document, identified with the value \<^verbatim>\<open>json.load\<close> returns for it.
\<close>

datatype db_file = NoFile | Malformed | Json pyval

text \<open>\<^verbatim>\<open>Database.load_data\<close>: an absent or unreadable file is the empty dictionary.\<close>

definition load_data :: "db_file \<Rightarrow> pyval" where
  "load_data f = (case f of NoFile \<Rightarrow> PDict [] | Malformed \<Rightarrow> PDict [] | Json v \<Rightarrow> v)"

text \<open>
  \<^verbatim>\<open>Database.save_data\<close> is \<^verbatim>\<open>with open(DATABASE_FILE, 'w') as f: json.dump(data, f, indent=4)\<close>.
  Opening in mode \<^verbatim>\<open>'w'\<close> creates the file or truncates it to length zero, in place;
  \<^verbatim>\<open>json.dump\<close> then writes the document piece by piece into the same file.
\<close>

definition open_w :: "db_file \<Rightarrow> db_file" where
  "open_w f = Malformed"

definition json_dump :: "pyval \<Rightarrow> db_file \<Rightarrow> db_file" where
  "json_dump data f = Json data"

definition save_data :: "pyval \<Rightarrow> db_file \<Rightarrow> db_file" where
  "save_data data f = json_dump data (open_w f)"

text \<open>
  The file as a write that fails partway leaves it: \<^verbatim>\<open>open\<close> has truncated the file and
  \<^verbatim>\<open>json.dump\<close> has not written the whole document. The only caller passes a dictionary,
  and no proper prefix of the text of a JSON object is a JSON document.
\<close>

definition save_data_interrupted :: "pyval \<Rightarrow> db_file \<Rightarrow> db_file" where
  "save_data_interrupted data f = open_w f"

text \<open>
  \<^verbatim>\<open>Database.save_user\<close>. \<^verbatim>\<open>data.get\<close> raises AttributeError when the document is not
  a dictionary, and the item assignment \<^verbatim>\<open>data['users'][user.username] = ...\<close> raises
  TypeError when the entry \<^verbatim>\<open>users\<close> is not one; both happen before the file is opened.
\<close>

definition save_user :: "user \<Rightarrow> db_file \<Rightarrow> py_error + db_file" where
  "save_user u f =
     (case load_data f of
        PDict data \<Rightarrow>
          (case dict_get data ''users'' (PDict []) of
             PDict users \<Rightarrow>
               Inr (save_data
                 (PDict (dict_set data ''users''
                    (PDict (dict_set users (username u) (PDict (user_to_dict u)))))) f)
           | _ \<Rightarrow> Inl TypeError)
      | _ \<Rightarrow> Inl AttributeError)"

text \<open>\<^verbatim>\<open>save_user\<close> with the write failing partway.\<close>

definition save_user_interrupted :: "user \<Rightarrow> db_file \<Rightarrow> py_error + db_file" where
  "save_user_interrupted u f =
     (case load_data f of
        PDict data \<Rightarrow>
          (case dict_get data ''users'' (PDict []) of
             PDict users \<Rightarrow>
               Inr (save_data_interrupted
                 (PDict (dict_set data ''users''
                    (PDict (dict_set users (username u) (PDict (user_to_dict u)))))) f)
           | _ \<Rightarrow> Inl TypeError)
      | _ \<Rightarrow> Inl AttributeError)"

text \<open>
  \<^verbatim>\<open>Database.load_user\<close>; \<open>Inr None\<close> is the result \<^verbatim>\<open>None\<close>. An entry \<^verbatim>\<open>users\<close>
  that is not a dictionary, or a user record that is not one, is outside the typed model
  (\<open>IllTyped\<close>).
\<close>

definition load_user :: "string \<Rightarrow> db_file \<Rightarrow> py_error + user option" where
  "load_user uname f =
     (case load_data f of
        PDict data \<Rightarrow>
          (case dict_get data ''users'' (PDict []) of
             PDict users \<Rightarrow>
               (case map_of users uname of
                  None \<Rightarrow> Inr None
                | Some (PDict d) \<Rightarrow> bind_err (user_from_dict d) (\<lambda>u. Inr (Some u))
                | Some _ \<Rightarrow> Inl IllTyped)
           | _ \<Rightarrow> Inl IllTyped)
      | _ \<Rightarrow> Inl AttributeError)"

text \<open>
  A database file that \<^verbatim>\<open>save_user\<close> can extend: it is absent or unreadable, or its
  document is a dictionary whose entry \<^verbatim>\<open>users\<close>, when present, is a dictionary.
\<close>

definition db_ok :: "db_file \<Rightarrow> bool" where
  "db_ok f =
     (case load_data f of
        PDict data \<Rightarrow> (case dict_get data ''users'' (PDict []) of PDict users \<Rightarrow> True | _ \<Rightarrow> False)
      | _ \<Rightarrow> False)"

section \<open>Python floats\<close>

text \<open>
  The adherence rate is a Python float (IEEE 754 binary64). A finite float is the rational
  number it denotes; \<open>b64_round\<close> is rounding to the nearest float, ties to even, with
  gradual underflow and an unbounded exponent upwards (the callers test for overflow).
  The sign of zero is not modelled.
\<close>

definition round_half_even :: "rat \<Rightarrow> int" where
  "round_half_even q =
     (let n = \<lfloor>q\<rfloor>; r = q - of_int n
      in if r < 1 / 2 then n else if 1 / 2 < r then n + 1 else if even n then n else n + 1)"

text \<open>The integer part of the binary logarithm of a positive rational.\<close>

definition ilog2 :: "rat \<Rightarrow> int" where
  "ilog2 q =
     (let (a, b) = quotient_of q; k = bitlen a - bitlen b
      in if 2 powi k \<le> q then k else k - 1)"

definition b64_round :: "rat \<Rightarrow> rat" where
  "b64_round q =
     (if q = 0 then 0
      else let p = max (ilog2 \<bar>q\<bar> - 52) (- 1074)
           in sgn q * of_int (round_half_even (\<bar>q\<bar> / 2 powi p)) * 2 powi p)"

datatype pyfloat = Fin rat | PosInf | NegInf

text \<open>\<^verbatim>\<open>a / b\<close> on integers: the correctly rounded quotient; OverflowError when it is
  too large for a float.\<close>

definition int_truediv :: "int \<Rightarrow> int \<Rightarrow> py_error + rat" where
  "int_truediv a b =
     (if b = 0 then Inl ZeroDivisionError
      else let r = b64_round (of_int a / of_int b)
           in if 2 ^ 1024 \<le> \<bar>r\<bar> then Inl OverflowError else Inr r)"

text \<open>\<^verbatim>\<open>x * 100\<close> on a finite float \<open>x\<close>: the rounded product, an infinity on overflow.\<close>

definition float_times_100 :: "rat \<Rightarrow> pyfloat" where
  "float_times_100 x =
     (let r = b64_round (x * 100)
      in if 2 ^ 1024 \<le> \<bar>r\<bar> then (if 0 < r then PosInf else NegInf) else Fin r)"

section \<open>The application: MediTrackApp\<close>

text \<open>
  A method of \<^verbatim>\<open>MediTrackApp\<close> reads lines from the terminal, changes the logged-in user
  and the database file, and prints. In the model the lines read are arguments (in the order
  of the \<^verbatim>\<open>input\<close> calls), the state is the pair of \<^verbatim>\<open>self.current_user\<close> and the file,
  and the outcome is the state the method leaves together with either the exception that
  ended it or the messages it printed. One message stands for one \<^verbatim>\<open>print\<close> that reports
  a result; headers, menus, listings and the wording of the texts are not modelled.
\<close>

datatype msg =
    NameRequired
  | DosageRequired
  | MedicineAdded string string string int
  | TitleRequired
  | DoctorRequired
  | AppointmentAdded string string string int string
  | NoMedicines
  | MedicineTaken string
  | RemainingStock int
  | LowStockWarning
  | OutOfStock
  | InvalidChoice
  | InvalidInput
  | NoAppointments
  | NoUpcomingAppointments
  | AppointmentCompleted string
  | CurrentPasswordIncorrect
  | PasswordEmpty
  | PasswordsDontMatch
  | PasswordChanged
  | NoteToday string string
  | NoteUpcoming string string int
  | NoteLowStock string int
  | DosesTaken int
  | DosesMissed int
  | ActiveMedicines int
  | UpcomingAppointments int
  | LowStockMedicines int
  | AdherenceRate pyfloat

type_synonym state = "user \<times> db_file"

type_synonym outcome = "state \<times> (py_error + msg list)"

subsection \<open>Notifications\<close>

text \<open>The two loops of \<^verbatim>\<open>check_notifications\<close>; the last argument is the list
  \<^verbatim>\<open>notifications\<close> built so far.\<close>

fun appointment_notifications ::
  "builtins \<Rightarrow> clock \<Rightarrow> appointment list \<Rightarrow> msg list \<Rightarrow> py_error + msg list" where
  "appointment_notifications B clk [] notifications = Inr notifications"
| "appointment_notifications B clk (a # rest) notifications =
     (case days_until B clk a of
        Inl e \<Rightarrow> Inl e
      | Inr days \<Rightarrow>
          appointment_notifications B clk rest
            (if days = 0 \<and> \<not> completed a
               then notifications @ [NoteToday (title a) (doctor a)]
             else if 1 \<le> days \<and> days \<le> 3 \<and> \<not> completed a
               then notifications @ [NoteUpcoming (title a) (doctor a) days]
             else notifications))"

fun medicine_notifications :: "medicine list \<Rightarrow> msg list \<Rightarrow> msg list" where
  "medicine_notifications [] notifications = notifications"
| "medicine_notifications (m # rest) notifications =
     medicine_notifications rest
       (if stock m \<le> 5 then notifications @ [NoteLowStock (name m) (stock m)]
        else notifications)"

definition check_notifications :: "builtins \<Rightarrow> clock \<Rightarrow> user option \<Rightarrow> py_error + msg list" where
  "check_notifications B clk current_user =
     (case current_user of
        None \<Rightarrow> Inr []
      | Some u \<Rightarrow>
          (case appointment_notifications B clk (appointments u) [] of
             Inl e \<Rightarrow> Inl e
           | Inr notifications \<Rightarrow> Inr (medicine_notifications (medicines u) notifications)))"

subsection \<open>Adding medicines and appointments\<close>

definition frequencies :: "string list" where
  "frequencies = [''Once daily'', ''Twice daily'', ''Three times daily'', ''Four times daily'']"

text \<open>
  The stock \<^verbatim>\<open>add_medicine\<close> reads:
  \<^verbatim>\<open>try: stock = int(input("Initial stock [30]: ").strip() or "30")\<close>
  \<^verbatim>\<open>except ValueError: stock = 30\<close>.
\<close>

definition initial_stock :: "builtins \<Rightarrow> string \<Rightarrow> int" where
  "initial_stock B stock_in =
     (let stock_input = str_strip B stock_in
      in case int_of_str B (if stock_input \<noteq> [] then stock_input else ''30'') of
           None \<Rightarrow> 30
         | Some n \<Rightarrow> n)"

text \<open>
  \<^verbatim>\<open>add_medicine\<close>. The frequency test \<^verbatim>\<open>choice.isdigit() and 1 <= int(choice) <= 4\<close>
  stands outside any \<^verbatim>\<open>try\<close>.
\<close>

definition add_medicine ::
  "builtins \<Rightarrow> clock \<Rightarrow> string \<Rightarrow> string \<Rightarrow> string \<Rightarrow> string \<Rightarrow> string \<Rightarrow> state \<Rightarrow> outcome" where
  "add_medicine B clk name_in dosage_in choice_in end_date_in stock_in s =
     (let (u, f) = s; name' = str_strip B name_in in
      if name' = [] then (s, Inr [NameRequired])
      else let dosage' = str_strip B dosage_in in
      if dosage' = [] then (s, Inr [DosageRequired])
      else let choice = str_strip B choice_in in
      case (if str_isdigit B choice
            then (case int_of_str B choice of
                    None \<Rightarrow> Inl ValueError
                  | Some n \<Rightarrow>
                      Inr (if 1 \<le> n \<and> n \<le> 4 then frequencies ! nat (n - 1) else ''Once daily''))
            else Inr ''Once daily'') of
        Inl e \<Rightarrow> (s, Inl e)
      | Inr frequency' \<Rightarrow>
          let start_date' = now_ymd clk;
              end_date_input = str_strip B end_date_in;
              end_date' = (if end_date_input \<noteq> [] then end_date_input else now_plus30_ymd clk);
              stock' = initial_stock B stock_in;
              medicine = Medicine name' dosage' frequency' start_date' end_date' stock';
              u' = u\<lparr>medicines := medicines u @ [medicine]\<rparr>
          in (case save_user u' f of
                Inl e \<Rightarrow> ((u', f), Inl e)
              | Inr f' \<Rightarrow> ((u', f'), Inr [MedicineAdded name' dosage' frequency' stock'])))"

text \<open>\<^verbatim>\<open>add_appointment\<close>: the date is stored as typed; \<^verbatim>\<open>days_until\<close> is called after the
  appointment has been saved.\<close>

definition add_appointment ::
  "builtins \<Rightarrow> clock \<Rightarrow> string \<Rightarrow> string \<Rightarrow> string \<Rightarrow> string \<Rightarrow> string \<Rightarrow> state \<Rightarrow> outcome" where
  "add_appointment B clk title_in doctor_in date_in time_in location_in s =
     (let (u, f) = s; title' = str_strip B title_in in
      if title' = [] then (s, Inr [TitleRequired])
      else let doctor' = str_strip B doctor_in in
      if doctor' = [] then (s, Inr [DoctorRequired])
      else
        let date_str = str_strip B date_in;
            time_input = str_strip B time_in;
            time_str = (if time_input \<noteq> [] then time_input else ''10:00'');
            location' = str_strip B location_in;
            appointment = Appointment title' doctor' date_str time_str location';
            u' = u\<lparr>appointments := appointments u @ [appointment]\<rparr>
        in case save_user u' f of
             Inl e \<Rightarrow> ((u', f), Inl e)
           | Inr f' \<Rightarrow>
               (case days_until B clk appointment of
                  Inl e \<Rightarrow> ((u', f'), Inl e)
                | Inr days \<Rightarrow>
                    ((u', f'), Inr [AppointmentAdded title' doctor' date_str days time_str])))"

subsection \<open>Taking a dose\<close>

text \<open>\<^verbatim>\<open>mark_medicine_taken\<close>: only the ValueError of \<^verbatim>\<open>int\<close> is caught.\<close>

definition mark_medicine_taken :: "builtins \<Rightarrow> string \<Rightarrow> state \<Rightarrow> outcome" where
  "mark_medicine_taken B choice_in s =
     (let (u, f) = s in
      if medicines u = [] then (s, Inr [NoMedicines])
      else case int_of_str B (str_strip B choice_in) of
        None \<Rightarrow> (s, Inr [InvalidInput])
      | Some choice \<Rightarrow>
          if 1 \<le> choice \<and> choice \<le> int (length (medicines u)) then
            let i = nat (choice - 1);
                (taken, medicine) = take_dose (medicines u ! i)
            in if taken then
                 let u' = u\<lparr>medicines := (medicines u)[i := medicine]\<rparr>
                 in case save_user u' f of
                      Inl e \<Rightarrow> ((u', f), Inl e)
                    | Inr f' \<Rightarrow>
                        ((u', f'),
                         Inr ([MedicineTaken (name medicine), RemainingStock (stock medicine)]
                              @ (if stock medicine \<le> 5 then [LowStockWarning] else [])))
               else (s, Inr [OutOfStock])
          else (s, Inr [InvalidChoice]))"

subsection \<open>Completing an appointment\<close>

text \<open>
  The list \<^verbatim>\<open>upcoming\<close> of \<^verbatim>\<open>mark_appointment_completed\<close> holds references to objects
  of \<^verbatim>\<open>self.current_user.appointments\<close>; the assignment \<^verbatim>\<open>appointment.completed = True\<close>
  changes the object in the user's list. The model keeps the positions: \<open>upcoming_positions\<close>
  lists, in order, the positions of the appointments the comprehension selects, given the
  results \<open>days\<close> of \<^verbatim>\<open>days_until\<close> for all appointments.
\<close>

definition upcoming_positions :: "int list \<Rightarrow> appointment list \<Rightarrow> nat list" where
  "upcoming_positions days appts =
     filter (\<lambda>i. 0 \<le> days ! i \<and> \<not> completed (appts ! i)) [0 ..< length appts]"

definition mark_appointment_completed :: "builtins \<Rightarrow> clock \<Rightarrow> string \<Rightarrow> state \<Rightarrow> outcome" where
  "mark_appointment_completed B clk choice_in s =
     (let (u, f) = s in
      if appointments u = [] then (s, Inr [NoAppointments])
      else case map_err (days_until B clk) (appointments u) of
        Inl e \<Rightarrow> (s, Inl e)
      | Inr days \<Rightarrow>
          let upcoming = upcoming_positions days (appointments u) in
          if upcoming = [] then (s, Inr [NoUpcomingAppointments])
          else (case int_of_str B (str_strip B choice_in) of
            None \<Rightarrow> (s, Inr [InvalidInput])
          | Some choice \<Rightarrow>
              if 1 \<le> choice \<and> choice \<le> int (length upcoming) then
                let i = upcoming ! nat (choice - 1);
                    appointment = (appointments u ! i)\<lparr>completed := True\<rparr>;
                    u' = u\<lparr>appointments := (appointments u)[i := appointment]\<rparr>
                in (case save_user u' f of
                      Inl e \<Rightarrow> ((u', f), Inl e)
                    | Inr f' \<Rightarrow> ((u', f'), Inr [AppointmentCompleted (title appointment)]))
              else (s, Inr [InvalidChoice])))"

subsection \<open>The weekly summary\<close>

text \<open>
  \<^verbatim>\<open>view_weekly_summary\<close>. The counts are computed before anything is printed; the
  adherence rate is printed last, as \<^verbatim>\<open>{adherence:.1f}\<close> (the message carries the float
  itself, not its decimal rendering).
\<close>

definition view_weekly_summary :: "builtins \<Rightarrow> clock \<Rightarrow> user \<Rightarrow> py_error + msg list" where
  "view_weekly_summary B clk u =
     (let taken_today' = sum_list (map taken_today (medicines u));
          missed_today' = sum_list (map missed_today (medicines u));
          total_medicines = int (length (medicines u))
      in case map_err (days_until B clk) (appointments u) of
        Inl e \<Rightarrow> Inl e
      | Inr days \<Rightarrow>
          let upcoming_appointments = int (length (upcoming_positions days (appointments u)));
              low_stock = int (length (filter (\<lambda>m. stock m \<le> 5) (medicines u)));
              printed = [DosesTaken taken_today', DosesMissed missed_today',
                         ActiveMedicines total_medicines,
                         UpcomingAppointments upcoming_appointments]
                        @ (if 0 < low_stock then [LowStockMedicines low_stock] else [])
          in if 0 < total_medicines then
               let total_doses = taken_today' + missed_today' in
               if 0 < total_doses then
                 (case int_truediv taken_today' total_doses of
                    Inl e \<Rightarrow> Inl e
                  | Inr q \<Rightarrow> Inr (printed @ [AdherenceRate (float_times_100 q)]))
               else Inr printed
             else Inr printed)"

subsection \<open>Changing the password\<close>

definition change_password :: "builtins \<Rightarrow> string \<Rightarrow> string \<Rightarrow> string \<Rightarrow> state \<Rightarrow> outcome" where
  "change_password B current_in new_in confirm_in s =
     (let (u, f) = s; current = str_strip B current_in in
      if current \<noteq> password u then (s, Inr [CurrentPasswordIncorrect])
      else let new_password = str_strip B new_in in
      if new_password = [] then (s, Inr [PasswordEmpty])
      else let confirm = str_strip B confirm_in in
      if new_password \<noteq> confirm then (s, Inr [PasswordsDontMatch])
      else
        let u' = u\<lparr>password := new_password\<rparr>
        in case save_user u' f of
             Inl e \<Rightarrow> ((u', f), Inl e)
           | Inr f' \<Rightarrow> ((u', f'), Inr [PasswordChanged]))"

subsection \<open>Sessions\<close>

text \<open>
  The operations of a logged-in session with the lines they read, and a session as a list
  of operations, each with the clock it runs at. An exception is caught nowhere above the
  methods, so it ends the program: the remaining operations do not run.
\<close>

datatype op =
    AddMedicine string string string string string
  | AddAppointment string string string string string
  | MarkMedicineTaken string
  | MarkAppointmentCompleted string
  | ChangePassword string string string
  | CheckNotifications
  | ViewWeeklySummary

fun exec :: "builtins \<Rightarrow> clock \<Rightarrow> op \<Rightarrow> state \<Rightarrow> outcome" where
  "exec B clk (AddMedicine n d c e st) s = add_medicine B clk n d c e st s"
| "exec B clk (AddAppointment t d dt tm l) s = add_appointment B clk t d dt tm l s"
| "exec B clk (MarkMedicineTaken c) s = mark_medicine_taken B c s"
| "exec B clk (MarkAppointmentCompleted c) s = mark_appointment_completed B clk c s"
| "exec B clk (ChangePassword c n k) s = change_password B c n k s"
| "exec B clk CheckNotifications s = (s, check_notifications B clk (Some (fst s)))"
| "exec B clk ViewWeeklySummary s = (s, view_weekly_summary B clk (fst s))"

fun run :: "builtins \<Rightarrow> (clock \<times> op) list \<Rightarrow> state \<Rightarrow> state" where
  "run B [] s = s"
| "run B ((clk, operation) # rest) s =
     (case exec B clk operation s of
        (s', Inl e) \<Rightarrow> s'
      | (s', Inr printed) \<Rightarrow> run B rest s')"

subsection \<open>What an operation can do to the user\<close>

text \<open>
  The changes the operations above make to the user object, as a relation between the user
  before and after one operation. It is used in the proofs of the invariants: every
  operation is shown to stay inside it.
\<close>

inductive user_step :: "user \<Rightarrow> user \<Rightarrow> bool" where
  unchanged: "user_step u u"
| medicine_added:
    "taken_today m = 0 \<Longrightarrow> missed_today m = 0 \<Longrightarrow>
     user_step u (u\<lparr>medicines := medicines u @ [m]\<rparr>)"
| appointment_added:
    "user_step u (u\<lparr>appointments := appointments u @ [a]\<rparr>)"
| dose_taken:
    "i < length (medicines u) \<Longrightarrow> 0 < stock (medicines u ! i) \<Longrightarrow>
     user_step u (u\<lparr>medicines := (medicines u)
       [i := (medicines u ! i)\<lparr>stock := stock (medicines u ! i) - 1,
                                taken_today := taken_today (medicines u ! i) + 1\<rparr>]\<rparr>)"
| appointment_completed:
    "i < length (appointments u) \<Longrightarrow> \<not> completed (appointments u ! i) \<Longrightarrow>
     user_step u (u\<lparr>appointments := (appointments u)
       [i := (appointments u ! i)\<lparr>completed := True\<rparr>]\<rparr>)"
| password_changed:
    "user_step u (u\<lparr>password := p\<rparr>)"

text \<open>The operations of a session whose typed stock, if any, is not negative.\<close>

fun nonneg_stock_input :: "builtins \<Rightarrow> op \<Rightarrow> bool" where
  "nonneg_stock_input B (AddMedicine n d c e st) = (0 \<le> initial_stock B st)"
| "nonneg_stock_input B _ = True"

subsection \<open>Builtins for evaluation\<close>

text \<open>
  One instance of the builtins, used to evaluate the model on concrete inputs. It agrees
  with Python on the strings it is applied to below: \<open>ascii_strip\<close> removes blanks at both
  ends, \<open>ascii_int\<close> reads an optional sign followed by decimal digits, and \<open>toy_ordinal\<close>
  knows the day numbers of a few dates of January 2024.
\<close>

definition ascii_strip :: "string \<Rightarrow> string" where
  "ascii_strip s = rev (dropWhile (\<lambda>c. c = CHR '' '') (rev (dropWhile (\<lambda>c. c = CHR '' '') s)))"

definition is_ascii_digit :: "char \<Rightarrow> bool" where
  "is_ascii_digit c = ((48::nat) \<le> of_char c \<and> of_char c \<le> (57::nat))"

definition ascii_isdigit :: "string \<Rightarrow> bool" where
  "ascii_isdigit s = (s \<noteq> [] \<and> list_all is_ascii_digit s)"

definition digits_value :: "string \<Rightarrow> int" where
  "digits_value s = foldl (\<lambda>acc c. 10 * acc + (int (of_char c) - 48)) 0 s"

definition ascii_int :: "string \<Rightarrow> int option" where
  "ascii_int s =
     (case s of
        [] \<Rightarrow> None
      | c # rest \<Rightarrow>
          if c = CHR ''-'' then (if ascii_isdigit rest then Some (- digits_value rest) else None)
          else if c = CHR ''+'' then (if ascii_isdigit rest then Some (digits_value rest) else None)
          else if ascii_isdigit s then Some (digits_value s) else None)"

definition toy_ordinal :: "string \<Rightarrow> int option" where
  "toy_ordinal s =
     (if s = ''2024-01-09'' then Some 738894
      else if s = ''2024-01-10'' then Some 738895
      else if s = ''2024-01-12'' then Some 738897
      else if s = ''2024-01-20'' then Some 738905
      else None)"

definition builtins0 :: builtins where
  "builtins0 = \<lparr>str_strip = ascii_strip, str_isdigit = ascii_isdigit,
                int_of_str = ascii_int, strptime_ymd = toy_ordinal\<rparr>"

definition clock0 :: clock where
  "clock0 = \<lparr>today = 738895, now_ymd = ''2024-01-10'', now_plus30_ymd = ''2024-02-09''\<rparr>"

definition alice :: user where
  "alice = User ''alice'' ''pw1'' ''Alice A''"

definition aspirin :: "int \<Rightarrow> medicine" where
  "aspirin n = Medicine ''Aspirin'' ''100mg'' ''Twice daily'' ''2024-01-10'' ''2024-02-09'' n"

definition checkup :: "string \<Rightarrow> appointment" where
  "checkup d = Appointment ''Checkup'' ''Smith'' d ''10:00'' ''''"

section \<open>The notifications in the words of the specification\<close>

text \<open>
  The specification of \<open>computeNotifications\<close>: "today" urgency for any incomplete
  appointment with \<open>daysUntil = 0\<close>, "upcoming" urgency for incomplete appointments with
  \<open>1 \<le> daysUntil \<le> 3\<close>, "low-stock" for any medicine with \<open>stock \<le> 5\<close>; appointments first
  (in list order), then medicines (in list order). An appointment comes with its
  \<open>daysUntil\<close>.
\<close>

definition appointment_note_spec :: "appointment \<times> int \<Rightarrow> msg list" where
  "appointment_note_spec ad =
     (case ad of (a, days_until') \<Rightarrow>
        if \<not> completed a \<and> days_until' = 0 then [NoteToday (title a) (doctor a)]
        else if \<not> completed a \<and> 1 \<le> days_until' \<and> days_until' \<le> 3
          then [NoteUpcoming (title a) (doctor a) days_until']
        else [])"

definition compute_notifications_spec :: "(appointment \<times> int) list \<Rightarrow> medicine list \<Rightarrow> msg list" where
  "compute_notifications_spec appts meds =
     concat (map appointment_note_spec appts)
     @ map (\<lambda>m. NoteLowStock (name m) (stock m)) (filter (\<lambda>m. stock m \<le> 5) meds)"

fun is_appointment_note :: "msg \<Rightarrow> bool" where
  "is_appointment_note (NoteToday t d) = True"
| "is_appointment_note (NoteUpcoming t d k) = True"
| "is_appointment_note _ = False"

fun is_low_stock_note :: "msg \<Rightarrow> bool" where
  "is_low_stock_note (NoteLowStock n k) = True"
| "is_low_stock_note _ = False"

section \<open>Properties of the entity layer\<close>

lemma bind_err_Inl [simp]: "bind_err (Inl e) f = Inl e"
  by (simp add: bind_err_def)

lemma bind_err_Inr [simp]: "bind_err (Inr x) f = f x"
  by (simp add: bind_err_def)

lemma bind_err_Inr_iff: "bind_err r f = Inr y \<longleftrightarrow> (\<exists>x. r = Inr x \<and> f x = Inr y)"
  by (cases r) simp_all

text \<open>
  Claim C1. For every medicine with stock \<open>s > 0\<close>, \<open>take_dose\<close> returns success, leaves the
  stock at \<open>s - 1\<close> and increments \<open>taken_today\<close> by exactly 1 (nothing else changes); for a
  medicine with stock 0 it returns failure and leaves the medicine, in particular the stock
  and \<open>taken_today\<close>, unchanged.
\<close>

theorem take_dose_spec:
  "(0 < stock m \<longrightarrow>
      take_dose m = (True, m\<lparr>stock := stock m - 1, taken_today := taken_today m + 1\<rparr>)
      \<and> stock (snd (take_dose m)) = stock m - 1
      \<and> taken_today (snd (take_dose m)) = taken_today m + 1)
   \<and> (stock m = 0 \<longrightarrow>
      take_dose m = (False, m)
      \<and> stock (snd (take_dose m)) = stock m
      \<and> taken_today (snd (take_dose m)) = taken_today m)"
  by (simp add: take_dose_def)

theorem take_dose_spec_witness:
  "take_dose (Medicine ''Aspirin'' ''100mg'' ''Twice daily'' ''2024-01-01'' ''2024-01-31'' 3)
     = (True, (Medicine ''Aspirin'' ''100mg'' ''Twice daily'' ''2024-01-01'' ''2024-01-31'' 2)
                \<lparr>taken_today := 1\<rparr>)
   \<and> take_dose (Medicine ''Aspirin'' ''100mg'' ''Twice daily'' ''2024-01-01'' ''2024-01-31'' 0)
     = (False, Medicine ''Aspirin'' ''100mg'' ''Twice daily'' ''2024-01-01'' ''2024-01-31'' 0)"
  using take_dose_spec [of "Medicine ''Aspirin'' ''100mg'' ''Twice daily'' ''2024-01-01'' ''2024-01-31'' 3"]
        take_dose_spec [of "Medicine ''Aspirin'' ''100mg'' ''Twice daily'' ''2024-01-01'' ''2024-01-31'' 0"]
  by (simp add: Medicine_def)

subsection \<open>Serialisation\<close>

lemma medicine_round_trip: "medicine_from_dict (medicine_to_dict m) = Inr m"
  by (simp add: medicine_from_dict_def medicine_to_dict_def dict_item_def dict_get_def
      Medicine_def)

lemma appointment_round_trip: "appointment_from_dict (appointment_to_dict a) = Inr a"
  by (simp add: appointment_from_dict_def appointment_to_dict_def dict_item_def dict_get_def
      Appointment_def)

lemma medicines_round_trip:
  "map_err (\<lambda>m. bind_err (as_dict m) medicine_from_dict)
     (map (\<lambda>m. PDict (medicine_to_dict m)) ms) = Inr ms"
  by (induction ms) (simp_all add: medicine_round_trip)

lemma appointments_round_trip:
  "map_err (\<lambda>a. bind_err (as_dict a) appointment_from_dict)
     (map (\<lambda>a. PDict (appointment_to_dict a)) as) = Inr as"
  by (induction as) (simp_all add: appointment_round_trip)

lemma user_round_trip: "user_from_dict (user_to_dict u) = Inr u"
  by (simp add: user_from_dict_def user_to_dict_def dict_item_def dict_get_def
      User_def medicines_round_trip appointments_round_trip)

lemma appointment_defaults:
  assumes "appointment_from_dict d = Inr a"
  shows "(map_of d ''location'' = None \<longrightarrow> location a = '''')
       \<and> (map_of d ''completed'' = None \<longrightarrow> completed a = False)"
  using assms
  by (auto simp: appointment_from_dict_def bind_err_Inr_iff dict_get_def Appointment_def)

lemma medicine_defaults:
  assumes "medicine_from_dict d = Inr m"
  shows "(map_of d ''taken_today'' = None \<longrightarrow> taken_today m = 0)
       \<and> (map_of d ''missed_today'' = None \<longrightarrow> missed_today m = 0)"
  using assms
  by (auto simp: medicine_from_dict_def bind_err_Inr_iff dict_get_def Medicine_def)

lemma user_defaults:
  assumes "user_from_dict d = Inr u"
  shows "(map_of d ''emergency_contact'' = None \<longrightarrow> emergency_contact u = '''')
       \<and> (map_of d ''emergency_phone'' = None \<longrightarrow> emergency_phone u = '''')"
  using assms
  by (auto simp: user_from_dict_def bind_err_Inr_iff dict_get_def User_def)

lemma appointment_required_only:
  "appointment_from_dict
      [(''title'', PStr t), (''doctor'', PStr dr), (''date'', PStr dt), (''time'', PStr tm)]
     = Inr (Appointment t dr dt tm '''')"
  by (simp add: appointment_from_dict_def dict_item_def dict_get_def Appointment_def)

lemma medicine_required_only:
  "medicine_from_dict
      [(''name'', PStr n), (''dosage'', PStr dg), (''frequency'', PStr fr),
       (''start_date'', PStr sd), (''end_date'', PStr ed), (''stock'', PInt st)]
     = Inr (Medicine n dg fr sd ed st)"
  by (simp add: medicine_from_dict_def dict_item_def dict_get_def Medicine_def)

lemma user_required_only:
  "user_from_dict [(''username'', PStr un), (''password'', PStr pw), (''name'', PStr nm)]
     = Inr (User un pw nm)"
  by (simp add: user_from_dict_def dict_item_def dict_get_def User_def)

text \<open>
  Claim C4. For every medicine, appointment and user \<open>x\<close>, \<open>from_dict (to_dict x)\<close> is \<open>x\<close>
  (equality of records is equality of all fields). Whenever \<open>from_dict\<close> accepts a
  dictionary that lacks an optional key, the field has the documented default: location
  empty, completed False, taken_today 0, missed_today 0, emergency_contact and
  emergency_phone empty; and a dictionary holding only the required keys is accepted, giving
  the object the constructor builds, which has exactly these defaults.
\<close>

theorem from_dict_to_dict:
  "medicine_from_dict (medicine_to_dict m) = Inr m
   \<and> appointment_from_dict (appointment_to_dict a) = Inr a
   \<and> user_from_dict (user_to_dict u) = Inr u
   \<and> (\<forall>d a'. appointment_from_dict d = Inr a' \<longrightarrow>
         (map_of d ''location'' = None \<longrightarrow> location a' = '''')
         \<and> (map_of d ''completed'' = None \<longrightarrow> completed a' = False))
   \<and> (\<forall>d m'. medicine_from_dict d = Inr m' \<longrightarrow>
         (map_of d ''taken_today'' = None \<longrightarrow> taken_today m' = 0)
         \<and> (map_of d ''missed_today'' = None \<longrightarrow> missed_today m' = 0))
   \<and> (\<forall>d u'. user_from_dict d = Inr u' \<longrightarrow>
         (map_of d ''emergency_contact'' = None \<longrightarrow> emergency_contact u' = '''')
         \<and> (map_of d ''emergency_phone'' = None \<longrightarrow> emergency_phone u' = ''''))
   \<and> appointment_from_dict
        [(''title'', PStr t), (''doctor'', PStr dr), (''date'', PStr dt), (''time'', PStr tm)]
       = Inr \<lparr>title = t, doctor = dr, date = dt, time = tm, location = '''', completed = False\<rparr>
   \<and> medicine_from_dict
        [(''name'', PStr n), (''dosage'', PStr dg), (''frequency'', PStr fr),
         (''start_date'', PStr sd), (''end_date'', PStr ed), (''stock'', PInt st)]
       = Inr \<lparr>name = n, dosage = dg, frequency = fr, start_date = sd, end_date = ed,
              stock = st, taken_today = 0, missed_today = 0\<rparr>
   \<and> user_from_dict [(''username'', PStr un), (''password'', PStr pw), (''name'', PStr nm)]
       = Inr \<lparr>username = un, password = pw, full_name = nm, medicines = [], appointments = [],
              emergency_contact = '''', emergency_phone = ''''\<rparr>"
proof -
  have defaults_a: "\<forall>d a'. appointment_from_dict d = Inr a' \<longrightarrow>
         (map_of d ''location'' = None \<longrightarrow> location a' = '''')
         \<and> (map_of d ''completed'' = None \<longrightarrow> completed a' = False)"
    using appointment_defaults by blast
  have defaults_m: "\<forall>d m'. medicine_from_dict d = Inr m' \<longrightarrow>
         (map_of d ''taken_today'' = None \<longrightarrow> taken_today m' = 0)
         \<and> (map_of d ''missed_today'' = None \<longrightarrow> missed_today m' = 0)"
    using medicine_defaults by blast
  have defaults_u: "\<forall>d u'. user_from_dict d = Inr u' \<longrightarrow>
         (map_of d ''emergency_contact'' = None \<longrightarrow> emergency_contact u' = '''')
         \<and> (map_of d ''emergency_phone'' = None \<longrightarrow> emergency_phone u' = '''')"
    using user_defaults by blast
  have req_a: "appointment_from_dict
        [(''title'', PStr t), (''doctor'', PStr dr), (''date'', PStr dt), (''time'', PStr tm)]
       = Inr \<lparr>title = t, doctor = dr, date = dt, time = tm, location = '''', completed = False\<rparr>"
    by (simp add: appointment_required_only Appointment_def)
  have req_m: "medicine_from_dict
        [(''name'', PStr n), (''dosage'', PStr dg), (''frequency'', PStr fr),
         (''start_date'', PStr sd), (''end_date'', PStr ed), (''stock'', PInt st)]
       = Inr \<lparr>name = n, dosage = dg, frequency = fr, start_date = sd, end_date = ed,
              stock = st, taken_today = 0, missed_today = 0\<rparr>"
    by (simp add: medicine_required_only Medicine_def)
  have req_u: "user_from_dict [(''username'', PStr un), (''password'', PStr pw), (''name'', PStr nm)]
       = Inr \<lparr>username = un, password = pw, full_name = nm, medicines = [], appointments = [],
              emergency_contact = '''', emergency_phone = ''''\<rparr>"
    by (simp add: user_required_only User_def)
  from medicine_round_trip appointment_round_trip user_round_trip
    defaults_a defaults_m defaults_u req_a req_m req_u
  show ?thesis by blast
qed

theorem from_dict_to_dict_witness:
  "appointment_from_dict
     [(''title'', PStr ''Checkup''), (''doctor'', PStr ''Smith''), (''date'', PStr ''2024-01-10''),
      (''time'', PStr ''10:00''), (''completed'', PBool True)]
     = Inr \<lparr>title = ''Checkup'', doctor = ''Smith'', date = ''2024-01-10'', time = ''10:00'',
            location = '''', completed = True\<rparr>
   \<and> map_of [(''title'', PStr ''Checkup''), (''doctor'', PStr ''Smith''),
        (''date'', PStr ''2024-01-10''), (''time'', PStr ''10:00''), (''completed'', PBool True)]
       ''location'' = None
   \<and> medicine_from_dict
       [(''name'', PStr ''Aspirin''), (''dosage'', PStr ''100mg''), (''frequency'', PStr ''Once daily''),
        (''start_date'', PStr ''2024-01-01''), (''end_date'', PStr ''2024-01-31''),
        (''stock'', PInt 3), (''taken_today'', PInt 2)]
     = Inr \<lparr>name = ''Aspirin'', dosage = ''100mg'', frequency = ''Once daily'',
            start_date = ''2024-01-01'', end_date = ''2024-01-31'', stock = 3,
            taken_today = 2, missed_today = 0\<rparr>
   \<and> user_from_dict
       [(''username'', PStr ''alice''), (''password'', PStr ''pw1''), (''name'', PStr ''Alice A''),
        (''emergency_phone'', PStr ''555'')]
     = Inr \<lparr>username = ''alice'', password = ''pw1'', full_name = ''Alice A'', medicines = [],
            appointments = [], emergency_contact = '''', emergency_phone = ''555''\<rparr>"
  using from_dict_to_dict [of "Medicine ''Aspirin'' ''100mg'' ''Once daily'' ''2024-01-01'' ''2024-01-31'' 3"
      "Appointment ''Checkup'' ''Smith'' ''2024-01-10'' ''10:00'' ''''" "User ''alice'' ''pw1'' ''Alice A''"]
  by (simp add: appointment_from_dict_def medicine_from_dict_def user_from_dict_def
      dict_item_def dict_get_def Appointment_def Medicine_def User_def)

section \<open>Properties of the persistence layer\<close>

lemma map_of_dict_set_same [simp]: "map_of (dict_set d k v) k = Some v"
  by (induction d k v rule: dict_set.induct) simp_all

lemma map_of_dict_set_other [simp]: "k' \<noteq> k \<Longrightarrow> map_of (dict_set d k v) k' = map_of d k'"
  by (induction d k v rule: dict_set.induct) simp_all

lemma save_user_Inr:
  assumes "save_user u f = Inr f'"
  obtains data users where "load_data f = PDict data"
    and "dict_get data ''users'' (PDict []) = PDict users"
    and "f' = Json (PDict (dict_set data ''users''
                 (PDict (dict_set users (username u) (PDict (user_to_dict u))))))"
  using assms
  by (auto simp: save_user_def save_data_def json_dump_def split: pyval.splits)

lemma load_user_save_user:
  assumes "save_user u f = Inr f'"
  shows "load_user (username u) f' = Inr (Some u)"
  using assms
  by (elim save_user_Inr) (simp add: load_user_def load_data_def dict_get_def user_round_trip)

lemma db_ok_save_user:
  assumes "save_user u f = Inr f'"
  shows "db_ok f'"
  using assms
  by (elim save_user_Inr) (simp add: db_ok_def load_data_def dict_get_def)

lemma save_user_total:
  assumes "db_ok f"
  shows "\<exists>f'. save_user u f = Inr f'"
  using assms
  by (auto simp: db_ok_def save_user_def split: pyval.splits)

lemma save_user_interrupted_Inr:
  assumes "save_user_interrupted u f = Inr f'"
  shows "f' = Malformed"
  using assms
  by (auto simp: save_user_interrupted_def save_data_interrupted_def open_w_def
      split: pyval.splits)

lemma load_user_Malformed: "load_user n Malformed = Inr None"
  by (simp add: load_user_def load_data_def dict_get_def)

lemma save_user_interrupted_reached:
  "(\<exists>f'. save_user_interrupted u f = Inr f') \<longleftrightarrow> (\<exists>f'. save_user u f = Inr f')"
  by (auto simp: save_user_interrupted_def save_user_def split: pyval.splits)

text \<open>
  Claim C2, as stated: a save that fails partway leaves the previous content of the file
  intact, the write going to a temporary file that is renamed into place. It fails on the
  code: the file holding the record of bob is opened for writing in place, so when the
  save of alice is interrupted the file is incomplete and bob can no longer be loaded.
\<close>

theorem save_user_interrupted_counterexample:
  "save_user_interrupted alice
      (Json (PDict [(''users'', PDict [(''bob'', PDict (user_to_dict (User ''bob'' ''pw2'' ''Bob B'')))])]))
     = Inr Malformed
   \<and> Malformed \<noteq> Json (PDict [(''users'', PDict [(''bob'', PDict (user_to_dict (User ''bob'' ''pw2'' ''Bob B'')))])])
   \<and> load_user ''bob''
       (Json (PDict [(''users'', PDict [(''bob'', PDict (user_to_dict (User ''bob'' ''pw2'' ''Bob B'')))])]))
     = Inr (Some (User ''bob'' ''pw2'' ''Bob B''))
   \<and> load_user ''bob'' Malformed = Inr None"
  by (simp add: save_user_interrupted_def save_data_interrupted_def open_w_def load_data_def
      dict_get_def load_user_def user_round_trip)

text \<open>
  Claim C2, amended. \<open>save_data\<close> overwrites the database file in place. Whenever
  \<open>save_user\<close> gets as far as writing (which it does exactly when the complete save
  succeeds), a write that fails partway leaves the file truncated or incomplete: the file
  then reads as the empty document and no user can be loaded from it. A save that completes
  leaves a valid document from which the saved user is loaded back unchanged.
\<close>

theorem save_user_in_place:
  "(save_user_interrupted u f = Inr f' \<longrightarrow>
      f' = Malformed \<and> load_data f' = PDict [] \<and> load_user n f' = Inr None)
   \<and> ((\<exists>g. save_user_interrupted u f = Inr g) = (\<exists>g. save_user u f = Inr g))
   \<and> (save_user u f = Inr f'' \<longrightarrow> db_ok f'' \<and> load_user (username u) f'' = Inr (Some u))"
proof (intro conjI impI)
  assume "save_user_interrupted u f = Inr f'"
  then have "f' = Malformed" by (rule save_user_interrupted_Inr)
  then show "f' = Malformed" "load_data f' = PDict []" "load_user n f' = Inr None"
    by (simp_all add: load_data_def load_user_Malformed)
next
  show "(\<exists>g. save_user_interrupted u f = Inr g) = (\<exists>g. save_user u f = Inr g)"
    by (rule save_user_interrupted_reached)
next
  assume s: "save_user u f = Inr f''"
  then show "db_ok f''" by (rule db_ok_save_user)
  from s show "load_user (username u) f'' = Inr (Some u)" by (rule load_user_save_user)
qed

theorem save_user_in_place_witness:
  "save_user_interrupted alice (Json (PDict [(''users'', PDict [])])) = Inr Malformed
   \<and> load_data Malformed = PDict []
   \<and> load_user ''alice'' Malformed = Inr None
   \<and> save_user alice (Json (PDict [(''users'', PDict [])]))
       = Inr (Json (PDict [(''users'', PDict [(''alice'', PDict (user_to_dict alice))])]))
   \<and> db_ok (Json (PDict [(''users'', PDict [(''alice'', PDict (user_to_dict alice))])]))
   \<and> load_user (username alice)
        (Json (PDict [(''users'', PDict [(''alice'', PDict (user_to_dict alice))])]))
       = Inr (Some alice)"
proof -
  have i: "save_user_interrupted alice (Json (PDict [(''users'', PDict [])])) = Inr Malformed"
    by (simp add: save_user_interrupted_def save_data_interrupted_def open_w_def load_data_def
        dict_get_def)
  have s: "save_user alice (Json (PDict [(''users'', PDict [])]))
       = Inr (Json (PDict [(''users'', PDict [(''alice'', PDict (user_to_dict alice))])]))"
    by (simp add: save_user_def save_data_def json_dump_def load_data_def dict_get_def
        alice_def User_def)
  from save_user_in_place [of alice "Json (PDict [(''users'', PDict [])])" Malformed "''alice''"
      "Json (PDict [(''users'', PDict [(''alice'', PDict (user_to_dict alice))])])"] i s
  show ?thesis by simp
qed

section \<open>Properties of the operations\<close>

subsection \<open>Every operation is a step\<close>

lemma take_dose_cases:
  "take_dose m = (taken, m') \<Longrightarrow>
     (taken \<and> 0 < stock m \<and> m' = m\<lparr>stock := stock m - 1, taken_today := taken_today m + 1\<rparr>)
     \<or> (\<not> taken \<and> stock m \<le> 0 \<and> m' = m)"
  by (auto simp: take_dose_def split: if_splits)

lemma add_medicine_step:
  assumes "add_medicine B clk n d c e st (u, f) = ((u', f'), r)"
  shows "user_step u u'"
  using assms
  by (auto simp: add_medicine_def Let_def Medicine_def
      intro: user_step.unchanged user_step.medicine_added
      split: if_splits option.splits sum.splits)

lemma add_appointment_step:
  assumes "add_appointment B clk t d dt tm l (u, f) = ((u', f'), r)"
  shows "user_step u u'"
  using assms
  by (auto simp: add_appointment_def Let_def
      intro: user_step.unchanged user_step.appointment_added
      split: if_splits option.splits sum.splits)

lemma mark_medicine_taken_step:
  assumes "mark_medicine_taken B c (u, f) = ((u', f'), r)"
  shows "user_step u u'"
  using assms
  by (auto simp: mark_medicine_taken_def Let_def
      intro: user_step.unchanged user_step.dose_taken
      dest!: take_dose_cases
      split: if_splits option.splits sum.splits prod.splits)

lemma upcoming_positions_nth:
  assumes "k < length (upcoming_positions days appts)"
  shows "upcoming_positions days appts ! k < length appts
       \<and> \<not> completed (appts ! (upcoming_positions days appts ! k))
       \<and> 0 \<le> days ! (upcoming_positions days appts ! k)"
proof -
  have "upcoming_positions days appts ! k \<in> set (upcoming_positions days appts)"
    using assms by simp
  then show ?thesis by (simp add: upcoming_positions_def)
qed

lemma mark_appointment_completed_step:
  assumes "mark_appointment_completed B clk c (u, f) = ((u', f'), r)"
  shows "user_step u u'"
proof -
  have *: "user_step u (u\<lparr>appointments := (appointments u)
       [upcoming_positions days (appointments u) ! nat (choice - 1) :=
          (appointments u ! (upcoming_positions days (appointments u) ! nat (choice - 1)))
            \<lparr>completed := True\<rparr>]\<rparr>)"
    if "1 \<le> choice" "choice \<le> int (length (upcoming_positions days (appointments u)))"
    for days choice
  proof -
    from that have "nat (choice - 1) < length (upcoming_positions days (appointments u))"
      by linarith
    from upcoming_positions_nth [OF this] show ?thesis
      by (intro user_step.appointment_completed) simp_all
  qed
  from assms show ?thesis
    by (auto simp: mark_appointment_completed_def Let_def *
        intro: user_step.unchanged
        split: if_splits option.splits sum.splits)
qed

lemma change_password_step:
  assumes "change_password B c n k (u, f) = ((u', f'), r)"
  shows "user_step u u'"
  using assms
  by (auto simp: change_password_def Let_def
      intro: user_step.unchanged user_step.password_changed
      split: if_splits option.splits sum.splits)

lemma exec_step:
  assumes "exec B clk operation (u, f) = ((u', f'), r)"
  shows "user_step u u'"
proof (cases operation)
  case (AddMedicine n d c e st)
  with assms show ?thesis by (simp add: add_medicine_step)
next
  case (AddAppointment t d dt tm l)
  with assms show ?thesis by (simp add: add_appointment_step)
next
  case (MarkMedicineTaken c)
  with assms show ?thesis by (simp add: mark_medicine_taken_step)
next
  case (MarkAppointmentCompleted c)
  with assms show ?thesis by (simp add: mark_appointment_completed_step)
next
  case (ChangePassword c n k)
  with assms show ?thesis by (simp add: change_password_step)
next
  case CheckNotifications
  with assms show ?thesis by (auto intro: user_step.unchanged)
next
  case ViewWeeklySummary
  with assms show ?thesis by (auto intro: user_step.unchanged)
qed

subsection \<open>What a step preserves\<close>

lemma user_step_appointments:
  assumes "user_step u u'" and "i < length (appointments u)"
  shows "i < length (appointments u')
       \<and> (completed (appointments u ! i) \<longrightarrow> appointments u' ! i = appointments u ! i)"
  using assms
proof (induction rule: user_step.induct)
  case (appointment_completed j u)
  then show ?case by (cases "i = j") simp_all
qed (simp_all add: nth_append)

lemma user_step_medicines:
  assumes "user_step u u'"
  shows "length (medicines u) \<le> length (medicines u')
       \<and> (\<forall>i<length (medicines u).
             missed_today (medicines u' ! i) = missed_today (medicines u ! i)
             \<and> stock (medicines u' ! i) \<le> stock (medicines u ! i)
             \<and> (0 \<le> stock (medicines u ! i) \<longrightarrow> 0 \<le> stock (medicines u' ! i)))
       \<and> (\<forall>i. length (medicines u) \<le> i \<and> i < length (medicines u')
             \<longrightarrow> missed_today (medicines u' ! i) = 0)"
  using assms
proof (induction rule: user_step.induct)
  case (dose_taken j u)
  then show ?case by (auto simp: nth_list_update)
next
  case (medicine_added m u)
  then show ?case by (auto simp: nth_append less_Suc_eq)
qed simp_all

text \<open>A property of the user that is reflexive and survives every step holds along every
  session, also one that an exception ends.\<close>

lemma run_induct_step:
  fixes u u' :: user
  assumes "\<And>v :: user. P v v"
    and "\<And>v w x :: user. P v w \<Longrightarrow> user_step w x \<Longrightarrow> P v x"
    and "run B ops (u, f) = (u', f')"
  shows "P u u'"
proof -
  have "P u0 u'" if "P u0 u" "run B ops (u, f) = (u', f')" for u0 :: user
    using that
  proof (induction ops arbitrary: u f)
    case Nil
    then show ?case by simp
  next
    case (Cons x rest)
    obtain clk operation where x: "x = (clk, operation)" by (cases x)
    obtain u1 f1 r where e: "exec B clk operation (u, f) = ((u1, f1), r)"
      by (metis surj_pair)
    have s: "user_step u u1" using e by (rule exec_step)
    have p: "P u0 u1" using Cons.prems(1) s by (rule assms(2))
    show ?case
    proof (cases r)
      case (Inl err)
      with Cons.prems(2) x e have "u' = u1" by simp
      with p show ?thesis by simp
    next
      case (Inr printed)
      with Cons.prems(2) x e have "run B rest (u1, f1) = (u', f')" by simp
      with Cons.IH p show ?thesis by blast
    qed
  qed
  with assms(1,3) show ?thesis by blast
qed

lemma run_appointments:
  assumes "run B ops (u, f) = (u', f')" and "i < length (appointments u)"
    and "completed (appointments u ! i)"
  shows "i < length (appointments u') \<and> appointments u' ! i = appointments u ! i"
proof -
  let ?P = "\<lambda>u v :: user. i < length (appointments u) \<and> completed (appointments u ! i)
     \<longrightarrow> i < length (appointments v) \<and> appointments v ! i = appointments u ! i"
  have "?P u u'"
  proof (rule run_induct_step [where P = ?P, OF _ _ assms(1)])
    show "?P v v" for v :: user by simp
    show "?P v x" if "?P v w" "user_step w x" for v w x :: user
      using that user_step_appointments [of w x i] by auto
  qed
  with assms(2,3) show ?thesis by simp
qed

lemma run_medicines:
  assumes "run B ops (u, f) = (u', f')"
  shows "length (medicines u) \<le> length (medicines u')
       \<and> (\<forall>i<length (medicines u).
             missed_today (medicines u' ! i) = missed_today (medicines u ! i)
             \<and> stock (medicines u' ! i) \<le> stock (medicines u ! i)
             \<and> (0 \<le> stock (medicines u ! i) \<longrightarrow> 0 \<le> stock (medicines u' ! i)))
       \<and> (\<forall>i. length (medicines u) \<le> i \<and> i < length (medicines u')
             \<longrightarrow> missed_today (medicines u' ! i) = 0)"
    (is "?P u u'")
proof (rule run_induct_step [where P = ?P, OF _ _ assms])
  show "?P v v" for v :: user by simp
  show "?P u w" if uv: "?P u v" and vw: "user_step v w" for u v w :: user
  proof -
    note s = user_step_medicines [OF vw]
    show ?thesis
    proof (intro conjI allI impI)
      show "length (medicines u) \<le> length (medicines w)" using uv s by linarith
    next
      fix i assume i: "i < length (medicines u)"
      then have iv: "i < length (medicines v)" using uv by linarith
      show "missed_today (medicines w ! i) = missed_today (medicines u ! i)"
        using uv s i iv by simp
      show "stock (medicines w ! i) \<le> stock (medicines u ! i)"
        using uv s i iv by (meson order_trans)
      show "0 \<le> stock (medicines w ! i)" if "0 \<le> stock (medicines u ! i)"
        using uv s i iv that by simp
    next
      fix i assume i: "length (medicines u) \<le> i \<and> i < length (medicines w)"
      show "missed_today (medicines w ! i) = 0"
      proof (cases "i < length (medicines v)")
        case True
        then show ?thesis using uv s i by simp
      next
        case False
        then show ?thesis using s i by simp
      qed
    qed
  qed
qed

text \<open>
  Claim C5. Along every session of the operations in scope (taking a dose, adding a
  medicine or an appointment, completing an appointment, changing the password, the
  notifications and the weekly summary), whether it runs to its end or an exception ends
  it, an appointment whose \<open>completed\<close> flag is true keeps its place in the user's list
  and stays as it is, so its flag is still true; and writing a completed appointment to a
  dictionary and reading it back gives a completed appointment.
\<close>

theorem completed_never_reset:
  "(run B ops (u, f) = (u', f') \<longrightarrow>
      (\<forall>i<length (appointments u). completed (appointments u ! i) \<longrightarrow>
         i < length (appointments u') \<and> completed (appointments u' ! i)
         \<and> appointments u' ! i = appointments u ! i))
   \<and> (completed a \<longrightarrow>
        (\<exists>a'. appointment_from_dict (appointment_to_dict a) = Inr a' \<and> completed a'))"
proof (intro conjI impI allI)
  fix i
  assume "run B ops (u, f) = (u', f')" "i < length (appointments u)"
    "completed (appointments u ! i)"
  from run_appointments [OF this] this(3)
  show "i < length (appointments u')" "completed (appointments u' ! i)"
    "appointments u' ! i = appointments u ! i"
    by simp_all
next
  assume "completed a"
  then show "\<exists>a'. appointment_from_dict (appointment_to_dict a) = Inr a' \<and> completed a'"
    by (simp add: appointment_round_trip)
qed

theorem completed_never_reset_witness:
  "completed (appointments (alice\<lparr>appointments :=
       [(checkup ''2024-01-10'')\<lparr>completed := True\<rparr>, checkup ''2024-01-12'']\<rparr>) ! 0)
   \<and> completed (appointments (fst (run builtins0
       [(clock0, MarkAppointmentCompleted ''1''),
        (clock0, AddAppointment ''Dentist'' ''Jones'' ''2024-01-20'' '''' ''''),
        (clock0, ChangePassword ''pw1'' ''pw2'' ''pw2''),
        (clock0, CheckNotifications)]
       (alice\<lparr>appointments :=
          [(checkup ''2024-01-10'')\<lparr>completed := True\<rparr>, checkup ''2024-01-12'']\<rparr>, NoFile))) ! 0)
   \<and> length (appointments (fst (run builtins0
       [(clock0, MarkAppointmentCompleted ''1''),
        (clock0, AddAppointment ''Dentist'' ''Jones'' ''2024-01-20'' '''' ''''),
        (clock0, ChangePassword ''pw1'' ''pw2'' ''pw2''),
        (clock0, CheckNotifications)]
       (alice\<lparr>appointments :=
          [(checkup ''2024-01-10'')\<lparr>completed := True\<rparr>, checkup ''2024-01-12'']\<rparr>, NoFile)))) = 3"
proof -
  let ?u = "alice\<lparr>appointments :=
       [(checkup ''2024-01-10'')\<lparr>completed := True\<rparr>, checkup ''2024-01-12'']\<rparr>"
  let ?ops = "[(clock0, MarkAppointmentCompleted ''1''),
        (clock0, AddAppointment ''Dentist'' ''Jones'' ''2024-01-20'' '''' ''''),
        (clock0, ChangePassword ''pw1'' ''pw2'' ''pw2''),
        (clock0, CheckNotifications)]"
  have c: "completed (appointments ?u ! 0)" by (simp add: checkup_def Appointment_def)
  have l: "0 < length (appointments ?u)" by simp
  have n: "length (appointments (fst (run builtins0 ?ops (?u, NoFile)))) = 3" by code_simp
  have r: "run builtins0 ?ops (?u, NoFile)
             = (fst (run builtins0 ?ops (?u, NoFile)), snd (run builtins0 ?ops (?u, NoFile)))"
    by simp
  from completed_never_reset [of builtins0 ?ops ?u NoFile "fst (run builtins0 ?ops (?u, NoFile))"
      "snd (run builtins0 ?ops (?u, NoFile))"] r l c
  have "completed (appointments (fst (run builtins0 ?ops (?u, NoFile))) ! 0)" by blast
  with c n show ?thesis by blast
qed

section \<open>Properties of the weekly summary\<close>

subsection \<open>Rounding\<close>

lemma round_half_even_cases:
  "round_half_even x = \<lfloor>x\<rfloor> \<or> round_half_even x = \<lfloor>x\<rfloor> + 1"
  by (simp add: round_half_even_def Let_def)

lemma round_half_even_bounds:
  assumes "0 \<le> x"
  shows "0 \<le> round_half_even x" and "of_int (round_half_even x) \<le> x + 1"
proof -
  have f: "0 \<le> \<lfloor>x\<rfloor>" using assms by simp
  with round_half_even_cases [of x] show "0 \<le> round_half_even x" by linarith
  have "round_half_even x \<le> \<lfloor>x\<rfloor> + 1"
    using round_half_even_cases [of x] by linarith
  then have "(of_int (round_half_even x) :: rat) \<le> of_int (\<lfloor>x\<rfloor> + 1)"
    by (simp only: of_int_le_iff)
  also have "\<dots> \<le> x + 1" by simp
  finally show "of_int (round_half_even x) \<le> x + 1" .
qed

lemma bitlen_mono: "a \<le> b \<Longrightarrow> bitlen a \<le> bitlen b"
  by (simp add: bitlen_def floorlog_mono nat_mono)

lemma ilog2_le:
  assumes "0 < q" and "q \<le> 2 ^ n"
  shows "ilog2 q \<le> int n"
proof -
  obtain a b where ab: "quotient_of q = (a, b)" by (cases "quotient_of q")
  have b: "0 < b" using ab by (rule quotient_of_denom_pos)
  have q: "q = of_int a / of_int b" using ab by (rule quotient_of_div)
  have "of_int a \<le> (2::rat) ^ n * of_int b"
    using assms(2) b by (simp add: q pos_divide_le_eq)
  also have "\<dots> = of_int (b * 2 ^ n)" by simp
  finally have "a \<le> b * 2 ^ n" by (simp only: of_int_le_iff)
  then have "bitlen a \<le> bitlen (b * 2 ^ n)" by (rule bitlen_mono)
  also have "\<dots> = bitlen b + int n" using b by simp
  finally have "bitlen a - bitlen b \<le> int n" by simp
  then show ?thesis by (simp add: ilog2_def ab Let_def)
qed

text \<open>Rounding a number between 0 and \<open>2 ^ n\<close> gives a number between 0 and \<open>2 ^ (n + 1)\<close>:
  it moves by less than one unit in the last place.\<close>

lemma b64_round_bounds:
  assumes "0 \<le> q" and "q \<le> 2 ^ n"
  shows "0 \<le> b64_round q" and "b64_round q \<le> 2 ^ Suc n"
proof -
  show "0 \<le> b64_round q"
    using assms(1) round_half_even_bounds(1) [of "q / 2 powi (max (ilog2 q - 52) (- 1074))"]
    by (simp add: b64_round_def Let_def sgn_if)
  show "b64_round q \<le> 2 ^ Suc n"
  proof (cases "q = 0")
    case True
    then show ?thesis by (simp add: b64_round_def)
  next
    case False
    with assms have pos: "0 < q" by simp
    define p where "p = max (ilog2 q - 52) (- 1074)"
    have "ilog2 q \<le> int n" using pos assms(2) by (rule ilog2_le)
    then have "p \<le> int n" by (simp add: p_def)
    then have "(2::rat) powi p \<le> 2 powi (int n)" by (intro power_int_increasing) simp_all
    then have pw: "(2::rat) powi p \<le> 2 ^ n" by simp
    have pp: "0 < (2::rat) powi p" by simp
    have "b64_round q = of_int (round_half_even (q / 2 powi p)) * 2 powi p"
      using pos by (simp add: b64_round_def Let_def p_def)
    also have "\<dots> \<le> (q / 2 powi p + 1) * 2 powi p"
      using round_half_even_bounds(2) [of "q / 2 powi p"] pos pp
      by (intro mult_right_mono) simp_all
    also have "\<dots> = q + 2 powi p" using pp by (simp add: field_simps)
    also have "\<dots> \<le> 2 ^ n + 2 ^ n" using assms(2) pw by (rule add_mono)
    finally show ?thesis by simp
  qed
qed

text \<open>Dividing a count by a total that is at least as large never overflows.\<close>

lemma int_truediv_fraction:
  assumes "0 \<le> t" and "t \<le> d" and "0 < d"
  shows "int_truediv t d = Inr (b64_round (of_int t / of_int d))"
    and "0 \<le> b64_round (of_int t / of_int d)" and "b64_round (of_int t / of_int d) \<le> 2"
proof -
  have q: "(0::rat) \<le> of_int t / of_int d" "of_int t / of_int d \<le> (2::rat) ^ 0"
    using assms by simp_all
  from b64_round_bounds [OF q]
  show b: "0 \<le> b64_round (of_int t / of_int d)" "b64_round (of_int t / of_int d) \<le> 2"
    by simp_all
  have "(2::rat) < 2 ^ 1024" by simp
  with b have "\<not> 2 ^ 1024 \<le> \<bar>b64_round (of_int t / of_int d)\<bar>" by simp
  then show "int_truediv t d = Inr (b64_round (of_int t / of_int d))"
    using assms(3) by (simp add: int_truediv_def Let_def)
qed

lemma float_times_100_small:
  assumes "0 \<le> x" and "x \<le> 2"
  shows "float_times_100 x = Fin (b64_round (x * 100))"
proof -
  have q: "0 \<le> x * 100" "x * 100 \<le> 2 ^ 8" using assms by simp_all
  from b64_round_bounds [OF q]
  have b: "0 \<le> b64_round (x * 100)" "b64_round (x * 100) \<le> 2 ^ 9" by simp_all
  have "(2::rat) ^ 9 < 2 ^ 1024" by simp
  with b have "\<not> 2 ^ 1024 \<le> \<bar>b64_round (x * 100)\<bar>" by simp
  then show ?thesis by (simp add: float_times_100_def Let_def)
qed

lemma b64_round_1: "b64_round 1 = 1"
  by code_simp

lemma b64_round_100: "b64_round 100 = 100"
  by code_simp

text \<open>In floats, \<^verbatim>\<open>7 / 10 * 100\<close> is \<^verbatim>\<open>70.0\<close>: the quotient is a little below seven
  tenths and the product rounds up to 70.\<close>

lemma b64_round_7_10: "b64_round (b64_round (7 / 10) * 100) = 70"
  by code_simp

subsection \<open>The summary\<close>

lemma sum_list_map_zero:
  fixes g :: "'a \<Rightarrow> int"
  shows "\<forall>x\<in>set xs. g x = 0 \<Longrightarrow> sum_list (map g xs) = 0"
  by (induction xs) simp_all

lemma view_weekly_summary_cases:
  assumes days: "map_err (days_until B clk) (appointments u) = Inr days"
    and T: "T = sum_list (map taken_today (medicines u))"
    and M: "M = sum_list (map missed_today (medicines u))"
    and base: "base = [DosesTaken T, DosesMissed M, ActiveMedicines (int (length (medicines u))),
              UpcomingAppointments (int (length (upcoming_positions days (appointments u))))]
             @ (if 0 < int (length (filter (\<lambda>m. stock m \<le> 5) (medicines u)))
                then [LowStockMedicines (int (length (filter (\<lambda>m. stock m \<le> 5) (medicines u))))]
                else [])"
  shows "view_weekly_summary B clk u =
           (if medicines u \<noteq> [] \<and> 0 < T + M
            then (case int_truediv T (T + M) of
                    Inl e \<Rightarrow> Inl e
                  | Inr q \<Rightarrow> Inr (base @ [AdherenceRate (float_times_100 q)]))
            else Inr base)"
  unfolding view_weekly_summary_def Let_def days T M base by simp

lemma base_no_adherence:
  assumes "base = [DosesTaken T, DosesMissed M, ActiveMedicines n, UpcomingAppointments k]
             @ (if c then [LowStockMedicines l] else [])"
  shows "AdherenceRate x \<notin> set base"
  using assms by simp

lemma view_weekly_summary_all_taken:
  assumes "\<forall>m\<in>set (medicines u). missed_today m = 0"
    and "view_weekly_summary B clk u = Inr printed"
    and "AdherenceRate x \<in> set printed"
  shows "x = Fin 100"
proof -
  obtain days where days: "map_err (days_until B clk) (appointments u) = Inr days"
    using assms(2) by (cases "map_err (days_until B clk) (appointments u)")
      (simp_all add: view_weekly_summary_def Let_def)
  define T where "T = sum_list (map taken_today (medicines u))"
  define M where "M = sum_list (map missed_today (medicines u))"
  define base where "base = [DosesTaken T, DosesMissed M, ActiveMedicines (int (length (medicines u))),
              UpcomingAppointments (int (length (upcoming_positions days (appointments u))))]
             @ (if 0 < int (length (filter (\<lambda>m. stock m \<le> 5) (medicines u)))
                then [LowStockMedicines (int (length (filter (\<lambda>m. stock m \<le> 5) (medicines u))))]
                else [])"
  note v = view_weekly_summary_cases [OF days T_def M_def base_def]
  have nb: "AdherenceRate y \<notin> set base" for y
    using base_def by (rule base_no_adherence)
  have M: "M = 0" unfolding M_def using assms(1) by (rule sum_list_map_zero)
  show ?thesis
  proof (cases "medicines u \<noteq> [] \<and> 0 < T + M")
    case True
    then have T: "0 < T" using M by simp
    then have "int_truediv T (T + M) = Inr 1"
      by (simp add: int_truediv_def M b64_round_1)
    moreover have "float_times_100 1 = Fin 100"
      by (simp add: float_times_100_def b64_round_100)
    ultimately have "printed = base @ [AdherenceRate (Fin 100)]"
      using assms(2) True by (simp add: v)
    with assms(3) nb show ?thesis by auto
  next
    case False
    then have "printed = base" using assms(2) by (auto simp: v)
    with assms(3) nb show ?thesis by simp
  qed
qed

text \<open>
  Claim C8. Let \<open>T\<close> and \<open>M\<close> be the sums of \<open>taken_today\<close> and \<open>missed_today\<close> over the
  user's medicines, the counters being non-negative as the data model has them, and let the
  dates of the appointments be dates (the summary counts the upcoming appointments first).
  Then \<open>view_weekly_summary\<close> returns; when \<open>T + M = 0\<close> it prints no adherence rate (and
  divides nothing); when \<open>T + M \<noteq> 0\<close> the adherence rate is the last line printed, it is
  printed once, and its value is the float \<^verbatim>\<open>T / (T + M) * 100\<close>: the quotient rounded to
  the nearest float, times 100, rounded again. For \<open>T = 7\<close> and \<open>M = 3\<close> this float is
  exactly 70.
\<close>

theorem view_weekly_summary_adherence:
  assumes "map_err (days_until B clk) (appointments u) = Inr days"
    and "\<forall>m\<in>set (medicines u). 0 \<le> taken_today m \<and> 0 \<le> missed_today m"
  shows "let T = sum_list (map taken_today (medicines u));
             M = sum_list (map missed_today (medicines u))
         in \<exists>printed. view_weekly_summary B clk u = Inr printed
            \<and> (T + M = 0 \<longrightarrow> (\<forall>x. AdherenceRate x \<notin> set printed))
            \<and> (T + M \<noteq> 0 \<longrightarrow>
                 (\<exists>rest. printed = rest @
                      [AdherenceRate (Fin (b64_round (b64_round (of_int T / of_int (T + M)) * 100)))]
                    \<and> (\<forall>x. AdherenceRate x \<notin> set rest)))
            \<and> (T = 7 \<and> M = 3 \<longrightarrow> last printed = AdherenceRate (Fin 70))"
proof -
  define T where "T = sum_list (map taken_today (medicines u))"
  define M where "M = sum_list (map missed_today (medicines u))"
  define base where "base = [DosesTaken T, DosesMissed M, ActiveMedicines (int (length (medicines u))),
              UpcomingAppointments (int (length (upcoming_positions days (appointments u))))]
             @ (if 0 < int (length (filter (\<lambda>m. stock m \<le> 5) (medicines u)))
                then [LowStockMedicines (int (length (filter (\<lambda>m. stock m \<le> 5) (medicines u))))]
                else [])"
  note v = view_weekly_summary_cases [OF assms(1) T_def M_def base_def]
  have nb: "AdherenceRate x \<notin> set base" for x
    using base_def by (rule base_no_adherence)
  have T0: "0 \<le> T" unfolding T_def using assms(2) by (intro sum_list_nonneg) auto
  have M0: "0 \<le> M" unfolding M_def using assms(2) by (intro sum_list_nonneg) auto
  have empty: "T + M = 0" if "medicines u = []"
    using that by (simp add: T_def M_def)
  have main: "\<exists>printed. view_weekly_summary B clk u = Inr printed
            \<and> (T + M = 0 \<longrightarrow> (\<forall>x. AdherenceRate x \<notin> set printed))
            \<and> (T + M \<noteq> 0 \<longrightarrow>
                 (\<exists>rest. printed = rest @
                      [AdherenceRate (Fin (b64_round (b64_round (of_int T / of_int (T + M)) * 100)))]
                    \<and> (\<forall>x. AdherenceRate x \<notin> set rest)))
            \<and> (T = 7 \<and> M = 3 \<longrightarrow> last printed = AdherenceRate (Fin 70))"
  proof (cases "T + M = 0")
    case True
    then have "view_weekly_summary B clk u = Inr base" by (simp add: v)
    with True nb show ?thesis by auto
  next
    case False
    with T0 M0 have pos: "0 < T + M" by linarith
    have ne: "medicines u \<noteq> []" using empty False by blast
    have le: "T \<le> T + M" using M0 by simp
    note d = int_truediv_fraction [OF T0 le pos]
    have t: "float_times_100 (b64_round (of_int T / of_int (T + M)))
               = Fin (b64_round (b64_round (of_int T / of_int (T + M)) * 100))"
      using d(2,3) by (rule float_times_100_small)
    have "view_weekly_summary B clk u =
        (case int_truediv T (T + M) of
           Inl e \<Rightarrow> Inl e
         | Inr q \<Rightarrow> Inr (base @ [AdherenceRate (float_times_100 q)]))"
      using ne pos by (simp add: v)
    then have r: "view_weekly_summary B clk u = Inr (base @
        [AdherenceRate (Fin (b64_round (b64_round (of_int T / of_int (T + M)) * 100)))])"
      by (simp only: d(1) sum.case t)
    show ?thesis
      using False nb by (auto simp: r b64_round_7_10)
  qed
  then show ?thesis
    unfolding T_def M_def Let_def .
qed

theorem view_weekly_summary_adherence_witness:
  "map_err (days_until builtins0 clock0)
      (appointments (alice\<lparr>medicines := [(aspirin 3)\<lparr>taken_today := 4, missed_today := 1\<rparr>,
                                        (aspirin 30)\<lparr>taken_today := 3, missed_today := 2\<rparr>],
                           appointments := [checkup ''2024-01-12'']\<rparr>)) = Inr [2]
   \<and> list_all (\<lambda>m. 0 \<le> taken_today m \<and> 0 \<le> missed_today m)
        (medicines (alice\<lparr>medicines := [(aspirin 3)\<lparr>taken_today := 4, missed_today := 1\<rparr>,
                                        (aspirin 30)\<lparr>taken_today := 3, missed_today := 2\<rparr>],
                           appointments := [checkup ''2024-01-12'']\<rparr>))
   \<and> (\<exists>printed. view_weekly_summary builtins0 clock0
          (alice\<lparr>medicines := [(aspirin 3)\<lparr>taken_today := 4, missed_today := 1\<rparr>,
                                (aspirin 30)\<lparr>taken_today := 3, missed_today := 2\<rparr>],
                   appointments := [checkup ''2024-01-12'']\<rparr>) = Inr printed
        \<and> last printed = AdherenceRate (Fin 70))"
proof -
  let ?u = "alice\<lparr>medicines := [(aspirin 3)\<lparr>taken_today := 4, missed_today := 1\<rparr>,
                                (aspirin 30)\<lparr>taken_today := 3, missed_today := 2\<rparr>],
                   appointments := [checkup ''2024-01-12'']\<rparr>"
  have h1: "map_err (days_until builtins0 clock0) (appointments ?u) = Inr [2]"
    by (simp add: days_until_def builtins0_def clock0_def toy_ordinal_def checkup_def
        Appointment_def)
  have h2: "\<forall>m\<in>set (medicines ?u). 0 \<le> taken_today m \<and> 0 \<le> missed_today m"
    by simp
  have T: "sum_list (map taken_today (medicines ?u)) = 7" by simp
  have M: "sum_list (map missed_today (medicines ?u)) = 3" by simp
  from view_weekly_summary_adherence [OF h1 h2]
  have "\<exists>printed. view_weekly_summary builtins0 clock0 ?u = Inr printed
        \<and> last printed = AdherenceRate (Fin 70)"
    unfolding Let_def T M by auto
  with h1 h2 show ?thesis by (simp add: list_all_iff)
qed

text \<open>
  Claim C10. No operation changes \<open>missed_today\<close>: along every session a medicine keeps the
  value it had, and a medicine added in the session has the value 0 the constructor sets.
  Hence, if all medicines of the user have \<open>missed_today = 0\<close> (as for a user created by
  registration, who starts without medicines, and whatever is added afterwards), then after
  any session every adherence rate the weekly summary prints is exactly 100.
\<close>

theorem missed_today_never_incremented:
  "(run B ops (u, f) = (u', f') \<longrightarrow>
      (\<forall>i<length (medicines u).
          i < length (medicines u')
          \<and> missed_today (medicines u' ! i) = missed_today (medicines u ! i))
      \<and> (\<forall>i. length (medicines u) \<le> i \<and> i < length (medicines u')
            \<longrightarrow> missed_today (medicines u' ! i) = 0)
      \<and> ((\<forall>m\<in>set (medicines u). missed_today m = 0) \<longrightarrow>
           (\<forall>m\<in>set (medicines u'). missed_today m = 0)
           \<and> (\<forall>printed x. view_weekly_summary B clk u' = Inr printed
                 \<and> AdherenceRate x \<in> set printed \<longrightarrow> x = Fin 100)))
   \<and> medicines (User un pw nm) = []
   \<and> missed_today (Medicine n dg fr sd ed st) = 0"
proof (intro conjI impI)
  assume r: "run B ops (u, f) = (u', f')"
  note m = run_medicines [OF r]
  show "\<forall>i<length (medicines u).
          i < length (medicines u')
          \<and> missed_today (medicines u' ! i) = missed_today (medicines u ! i)"
    using m by auto
  show "\<forall>i. length (medicines u) \<le> i \<and> i < length (medicines u')
            \<longrightarrow> missed_today (medicines u' ! i) = 0"
    using m by blast
  assume z: "\<forall>m\<in>set (medicines u). missed_today m = 0"
  show z': "\<forall>m\<in>set (medicines u'). missed_today m = 0"
  proof
    fix x assume "x \<in> set (medicines u')"
    then obtain i where i: "i < length (medicines u')" "x = medicines u' ! i"
      by (auto simp: in_set_conv_nth)
    show "missed_today x = 0"
    proof (cases "i < length (medicines u)")
      case True
      then have "missed_today (medicines u ! i) = 0" using z by simp
      with True m i show ?thesis by simp
    next
      case False
      with m i show ?thesis by simp
    qed
  qed
  show "\<forall>printed x. view_weekly_summary B clk u' = Inr printed
                 \<and> AdherenceRate x \<in> set printed \<longrightarrow> x = Fin 100"
    using view_weekly_summary_all_taken [OF z'] by blast
next
  show "medicines (User un pw nm) = []" by (simp add: User_def)
  show "missed_today (Medicine n dg fr sd ed st) = 0" by (simp add: Medicine_def)
qed

theorem missed_today_never_incremented_witness:
  "list_all (\<lambda>m. missed_today m = 0) (medicines alice)
   \<and> view_weekly_summary builtins0 clock0
        (fst (run builtins0
           [(clock0, AddMedicine ''Aspirin'' ''100mg'' ''2'' '''' ''3''),
            (clock0, MarkMedicineTaken ''1'')] (alice, NoFile)))
      = Inr [DosesTaken 1, DosesMissed 0, ActiveMedicines 1, UpcomingAppointments 0,
             LowStockMedicines 1, AdherenceRate (Fin 100)]
   \<and> list_all (\<lambda>m. missed_today m = 0)
        (medicines (fst (run builtins0
           [(clock0, AddMedicine ''Aspirin'' ''100mg'' ''2'' '''' ''3''),
            (clock0, MarkMedicineTaken ''1'')] (alice, NoFile))))"
proof -
  let ?ops = "[(clock0, AddMedicine ''Aspirin'' ''100mg'' ''2'' '''' ''3''),
            (clock0, MarkMedicineTaken ''1'')]"
  let ?s = "run builtins0 ?ops (alice, NoFile)"
  have z: "\<forall>m\<in>set (medicines alice). missed_today m = 0"
    by (simp add: alice_def User_def)
  have r: "?s = (fst ?s, snd ?s)" by simp
  have s: "fst ?s = alice\<lparr>medicines := [(aspirin 2)\<lparr>taken_today := 1\<rparr>]\<rparr>"
    by code_simp
  have v: "view_weekly_summary builtins0 clock0 (fst ?s)
      = Inr [DosesTaken 1, DosesMissed 0, ActiveMedicines 1, UpcomingAppointments 0,
             LowStockMedicines 1, AdherenceRate (Fin 100)]"
    unfolding s
    by (simp add: view_weekly_summary_def Let_def int_truediv_def float_times_100_def
        b64_round_1 b64_round_100 upcoming_positions_def aspirin_def Medicine_def alice_def
        User_def)
  from missed_today_never_incremented [of builtins0 ?ops alice NoFile "fst ?s" "snd ?s"] r z
  have "\<forall>m\<in>set (medicines (fst ?s)). missed_today m = 0" by blast
  then have l: "list_all (\<lambda>m. missed_today m = 0) (medicines (fst ?s))"
    by (simp only: list_all_iff)
  have l0: "list_all (\<lambda>m. missed_today m = 0) (medicines alice)"
    using z by (simp only: list_all_iff)
  from l0 v l show ?thesis by (intro conjI)
qed

section \<open>Properties of the notifications\<close>

lemma map_err_length:
  "map_err g xs = Inr ys \<Longrightarrow> length ys = length xs"
  by (induction xs arbitrary: ys) (auto split: sum.splits)

lemma map_err_nth:
  "map_err g xs = Inr ys \<Longrightarrow> i < length xs \<Longrightarrow> g (xs ! i) = Inr (ys ! i)"
  by (induction xs arbitrary: ys i) (auto split: sum.splits simp: nth_Cons split: nat.splits)

lemma appointment_notifications_spec:
  assumes "map_err (days_until B clk) appts = Inr days"
  shows "appointment_notifications B clk appts acc
           = Inr (acc @ concat (map appointment_note_spec (zip appts days)))"
  using assms
proof (induction appts arbitrary: acc days)
  case Nil
  then show ?case by simp
next
  case (Cons a rest)
  from Cons.prems obtain d ds where d: "days_until B clk a = Inr d"
    and ds: "map_err (days_until B clk) rest = Inr ds" and days: "days = d # ds"
    by (auto split: sum.splits)
  show ?case
    by (simp add: d days Cons.IH [OF ds] appointment_note_spec_def)
qed

lemma appointment_notifications_error:
  assumes "map_err (days_until B clk) appts = Inl e"
  shows "appointment_notifications B clk appts acc = Inl e"
  using assms
  by (induction appts arbitrary: acc) (auto split: sum.splits)

lemma medicine_notifications_spec:
  "medicine_notifications meds acc
     = acc @ map (\<lambda>m. NoteLowStock (name m) (stock m)) (filter (\<lambda>m. stock m \<le> 5) meds)"
  by (induction meds arbitrary: acc) simp_all

lemma appointment_note_spec_sound:
  assumes "n \<in> set (concat (map appointment_note_spec (zip appts days)))"
  shows "\<exists>i<length appts. i < length days \<and> \<not> completed (appts ! i)
           \<and> (n = NoteToday (title (appts ! i)) (doctor (appts ! i)) \<and> days ! i = 0
              \<or> n = NoteUpcoming (title (appts ! i)) (doctor (appts ! i)) (days ! i)
                 \<and> 1 \<le> days ! i \<and> days ! i \<le> 3)"
proof -
  from assms obtain ad where ad: "ad \<in> set (zip appts days)" and n: "n \<in> set (appointment_note_spec ad)"
    by auto
  from ad obtain i where i: "i < length appts" "i < length days" "ad = (appts ! i, days ! i)"
    by (auto simp: set_zip)
  from n i show ?thesis
    by (intro exI [of _ i]) (auto simp: appointment_note_spec_def split: if_splits)
qed

text \<open>
  Claim C9. When the dates of the user's appointments are dates, \<open>check_notifications\<close>
  returns the list the specification describes. Every "today" and every "upcoming" entry in
  it comes from an appointment of the user that is not completed, with \<open>days_until = 0\<close>
  for "today" and \<open>1 \<le> days_until \<le> 3\<close> for "upcoming", so a completed appointment is
  never notified; and the list is the appointment entries followed by the low-stock entries
  of the medicines. When some date is not a date, the ValueError of \<open>days_until\<close> ends the
  operation and nothing is notified; without a logged-in user the list is empty.
\<close>

theorem check_notifications_spec:
  "(map_err (days_until B clk) (appointments u) = Inr days \<longrightarrow>
      check_notifications B clk (Some u)
        = Inr (compute_notifications_spec (zip (appointments u) days) (medicines u))
      \<and> (\<forall>n\<in>set (compute_notifications_spec (zip (appointments u) days) (medicines u)).
           is_appointment_note n \<longrightarrow>
           (\<exists>i<length (appointments u). \<not> completed (appointments u ! i)
              \<and> (n = NoteToday (title (appointments u ! i)) (doctor (appointments u ! i))
                    \<and> days ! i = 0
                  \<or> n = NoteUpcoming (title (appointments u ! i)) (doctor (appointments u ! i)) (days ! i)
                    \<and> 1 \<le> days ! i \<and> days ! i \<le> 3)))
      \<and> (\<exists>first rest.
            compute_notifications_spec (zip (appointments u) days) (medicines u) = first @ rest
            \<and> list_all is_appointment_note first \<and> list_all is_low_stock_note rest))
   \<and> (map_err (days_until B clk) (appointments u) = Inl e \<longrightarrow>
        check_notifications B clk (Some u) = Inl e)
   \<and> check_notifications B clk None = Inr []"
proof (intro conjI impI)
  assume days: "map_err (days_until B clk) (appointments u) = Inr days"
  show "check_notifications B clk (Some u)
        = Inr (compute_notifications_spec (zip (appointments u) days) (medicines u))"
    by (simp add: check_notifications_def appointment_notifications_spec [OF days]
        medicine_notifications_spec compute_notifications_spec_def)
  show "\<forall>n\<in>set (compute_notifications_spec (zip (appointments u) days) (medicines u)).
           is_appointment_note n \<longrightarrow>
           (\<exists>i<length (appointments u). \<not> completed (appointments u ! i)
              \<and> (n = NoteToday (title (appointments u ! i)) (doctor (appointments u ! i))
                    \<and> days ! i = 0
                  \<or> n = NoteUpcoming (title (appointments u ! i)) (doctor (appointments u ! i)) (days ! i)
                    \<and> 1 \<le> days ! i \<and> days ! i \<le> 3))"
  proof (intro ballI impI)
    fix n
    assume n: "n \<in> set (compute_notifications_spec (zip (appointments u) days) (medicines u))"
      and a: "is_appointment_note n"
    from n a have "n \<in> set (concat (map appointment_note_spec (zip (appointments u) days)))"
      by (auto simp: compute_notifications_spec_def)
    from appointment_note_spec_sound [OF this]
    show "\<exists>i<length (appointments u). \<not> completed (appointments u ! i)
              \<and> (n = NoteToday (title (appointments u ! i)) (doctor (appointments u ! i))
                    \<and> days ! i = 0
                  \<or> n = NoteUpcoming (title (appointments u ! i)) (doctor (appointments u ! i)) (days ! i)
                    \<and> 1 \<le> days ! i \<and> days ! i \<le> 3)"
      by blast
  qed
  have "list_all is_appointment_note (concat (map appointment_note_spec (zip (appointments u) days)))"
    by (auto simp: list_all_iff appointment_note_spec_def split: if_splits)
  moreover have "list_all is_low_stock_note
      (map (\<lambda>m. NoteLowStock (name m) (stock m)) (filter (\<lambda>m. stock m \<le> 5) (medicines u)))"
    by (auto simp: list_all_iff)
  ultimately show "\<exists>first rest.
            compute_notifications_spec (zip (appointments u) days) (medicines u) = first @ rest
            \<and> list_all is_appointment_note first \<and> list_all is_low_stock_note rest"
    unfolding compute_notifications_spec_def by blast
next
  assume "map_err (days_until B clk) (appointments u) = Inl e"
  then show "check_notifications B clk (Some u) = Inl e"
    by (simp add: check_notifications_def appointment_notifications_error)
next
  show "check_notifications B clk None = Inr []"
    by (simp add: check_notifications_def)
qed

theorem check_notifications_spec_witness:
  "map_err (days_until builtins0 clock0)
      [checkup ''2024-01-10'', (checkup ''2024-01-10'')\<lparr>completed := True\<rparr>,
       (checkup ''2024-01-12'')\<lparr>completed := True\<rparr>, checkup ''2024-01-12'',
       checkup ''2024-01-20''] = Inr [0, 0, 2, 2, 10]
   \<and> check_notifications builtins0 clock0
        (Some (alice\<lparr>medicines := [aspirin 3, aspirin 30],
                      appointments :=
                        [checkup ''2024-01-10'', (checkup ''2024-01-10'')\<lparr>completed := True\<rparr>,
                         (checkup ''2024-01-12'')\<lparr>completed := True\<rparr>, checkup ''2024-01-12'',
                         checkup ''2024-01-20'']\<rparr>))
      = Inr [NoteToday ''Checkup'' ''Smith'', NoteUpcoming ''Checkup'' ''Smith'' 2,
             NoteLowStock ''Aspirin'' 3]"
proof -
  let ?as = "[checkup ''2024-01-10'', (checkup ''2024-01-10'')\<lparr>completed := True\<rparr>,
       (checkup ''2024-01-12'')\<lparr>completed := True\<rparr>, checkup ''2024-01-12'',
       checkup ''2024-01-20'']"
  let ?u = "alice\<lparr>medicines := [aspirin 3, aspirin 30], appointments := ?as\<rparr>"
  have h: "map_err (days_until builtins0 clock0) (appointments ?u) = Inr [0, 0, 2, 2, 10]"
    by (simp add: days_until_def builtins0_def clock0_def toy_ordinal_def checkup_def
        Appointment_def)
  have c: "compute_notifications_spec (zip (appointments ?u) [0, 0, 2, 2, 10]) (medicines ?u)
      = [NoteToday ''Checkup'' ''Smith'', NoteUpcoming ''Checkup'' ''Smith'' 2,
         NoteLowStock ''Aspirin'' 3]"
    by (simp add: compute_notifications_spec_def appointment_note_spec_def checkup_def
        Appointment_def aspirin_def Medicine_def)
  from check_notifications_spec [of builtins0 clock0 ?u "[0, 0, 2, 2, 10]"] h
  have "check_notifications builtins0 clock0 (Some ?u)
      = Inr (compute_notifications_spec (zip (appointments ?u) [0, 0, 2, 2, 10]) (medicines ?u))"
    by blast
  then have "check_notifications builtins0 clock0 (Some ?u)
      = Inr [NoteToday ''Checkup'' ''Smith'', NoteUpcoming ''Checkup'' ''Smith'' 2,
             NoteLowStock ''Aspirin'' 3]"
    by (simp only: c)
  moreover from h have "map_err (days_until builtins0 clock0) ?as = Inr [0, 0, 2, 2, 10]"
    by simp
  ultimately show ?thesis by (intro conjI)
qed

section \<open>Properties of taking a dose\<close>

text \<open>
  Claim C7. Let the line typed be an integer that is a valid position in the user's list of
  medicines, and let the database file be one that \<open>save_user\<close> can extend. If the selected
  medicine is out of stock, \<open>mark_medicine_taken\<close> reports \<open>OutOfStock\<close> and leaves the
  user and the file as they are: nothing is saved. Otherwise the dose is taken, the updated
  user is saved (the file is the one \<open>save_user\<close> writes, and loading the user from it
  gives the updated user), and the report is the remaining stock, followed by the low-stock
  warning exactly when the remaining stock is at most 5.
\<close>

theorem mark_medicine_taken_spec:
  assumes "int_of_str B (str_strip B choice_in) = Some choice"
    and "1 \<le> choice" and "choice \<le> int (length (medicines u))"
    and "db_ok f"
  shows "let i = nat (choice - 1);
             m = medicines u ! i;
             m' = m\<lparr>stock := stock m - 1, taken_today := taken_today m + 1\<rparr>;
             u' = u\<lparr>medicines := (medicines u)[i := m']\<rparr>
         in (stock m \<le> 0 \<longrightarrow>
               mark_medicine_taken B choice_in (u, f) = ((u, f), Inr [OutOfStock]))
          \<and> (0 < stock m \<longrightarrow>
               (\<exists>f' printed.
                  mark_medicine_taken B choice_in (u, f) = ((u', f'), Inr printed)
                  \<and> save_user u' f = Inr f'
                  \<and> load_user (username u) f' = Inr (Some u')
                  \<and> printed = [MedicineTaken (name m), RemainingStock (stock m - 1)]
                               @ (if stock m - 1 \<le> 5 then [LowStockWarning] else [])
                  \<and> (LowStockWarning \<in> set printed) = (stock m - 1 \<le> 5)))"
proof -
  define i where "i = nat (choice - 1)"
  define m where "m = medicines u ! i"
  define m' where "m' = m\<lparr>stock := stock m - 1, taken_today := taken_today m + 1\<rparr>"
  define u' where "u' = u\<lparr>medicines := (medicines u)[i := m']\<rparr>"
  have ne: "medicines u \<noteq> []" using assms(2,3) by auto
  have out: "mark_medicine_taken B choice_in (u, f) = ((u, f), Inr [OutOfStock])"
    if "stock m \<le> 0"
    using that assms(1-3) ne
    by (simp add: mark_medicine_taken_def take_dose_def i_def [symmetric] m_def [symmetric])
  have ok: "\<exists>f' printed.
                  mark_medicine_taken B choice_in (u, f) = ((u', f'), Inr printed)
                  \<and> save_user u' f = Inr f'
                  \<and> load_user (username u) f' = Inr (Some u')
                  \<and> printed = [MedicineTaken (name m), RemainingStock (stock m - 1)]
                               @ (if stock m - 1 \<le> 5 then [LowStockWarning] else [])
                  \<and> (LowStockWarning \<in> set printed) = (stock m - 1 \<le> 5)"
    if pos: "0 < stock m"
  proof -
    from save_user_total [OF assms(4)] obtain f' where s: "save_user u' f = Inr f'" by blast
    have l: "load_user (username u) f' = Inr (Some u')"
      using load_user_save_user [OF s] by (simp add: u'_def)
    have "mark_medicine_taken B choice_in (u, f)
            = ((u', f'), Inr ([MedicineTaken (name m), RemainingStock (stock m - 1)]
                               @ (if stock m - 1 \<le> 5 then [LowStockWarning] else [])))"
      using pos assms(1-3) ne s
      by (simp add: mark_medicine_taken_def take_dose_def i_def [symmetric] m_def [symmetric]
          m'_def [symmetric] u'_def [symmetric] Let_def)
        (simp add: m'_def)
    with s l show ?thesis by auto
  qed
  from out ok show ?thesis
    unfolding Let_def i_def [symmetric] m_def [symmetric] m'_def [symmetric] u'_def [symmetric]
    by blast
qed

theorem mark_medicine_taken_spec_witness:
  "int_of_str builtins0 (str_strip builtins0 '' 1 '') = Some 1
   \<and> db_ok NoFile
   \<and> mark_medicine_taken builtins0 '' 1 '' (alice\<lparr>medicines := [aspirin 0]\<rparr>, NoFile)
        = ((alice\<lparr>medicines := [aspirin 0]\<rparr>, NoFile), Inr [OutOfStock])
   \<and> (\<exists>f'. mark_medicine_taken builtins0 '' 1 '' (alice\<lparr>medicines := [aspirin 7]\<rparr>, NoFile)
          = ((alice\<lparr>medicines := [(aspirin 6)\<lparr>taken_today := 1\<rparr>]\<rparr>, f'),
             Inr [MedicineTaken ''Aspirin'', RemainingStock 6])
        \<and> load_user ''alice'' f'
          = Inr (Some (alice\<lparr>medicines := [(aspirin 6)\<lparr>taken_today := 1\<rparr>]\<rparr>)))
   \<and> (\<exists>f'. mark_medicine_taken builtins0 '' 1 '' (alice\<lparr>medicines := [aspirin 6]\<rparr>, NoFile)
          = ((alice\<lparr>medicines := [(aspirin 5)\<lparr>taken_today := 1\<rparr>]\<rparr>, f'),
             Inr [MedicineTaken ''Aspirin'', RemainingStock 5, LowStockWarning]))"
proof -
  have h1: "int_of_str builtins0 (str_strip builtins0 '' 1 '') = Some 1"
    by (simp add: builtins0_def ascii_strip_def ascii_int_def ascii_isdigit_def
        is_ascii_digit_def digits_value_def)
  have h4: "db_ok NoFile" by (simp add: db_ok_def load_data_def dict_get_def)
  have n: "username alice = ''alice''" by (simp add: alice_def User_def)
  have a: "(aspirin k)\<lparr>stock := k - 1, taken_today := 1\<rparr> = (aspirin (k - 1))\<lparr>taken_today := 1\<rparr>"
    for k by (simp add: aspirin_def Medicine_def)
  have b: "taken_today (aspirin k) = 0" "stock (aspirin k) = k" "name (aspirin k) = ''Aspirin''"
    for k by (simp_all add: aspirin_def Medicine_def)
  from mark_medicine_taken_spec [of builtins0 "'' 1 ''" 1 "alice\<lparr>medicines := [aspirin 0]\<rparr>" NoFile]
    h1 h4
  have c0: "mark_medicine_taken builtins0 '' 1 '' (alice\<lparr>medicines := [aspirin 0]\<rparr>, NoFile)
        = ((alice\<lparr>medicines := [aspirin 0]\<rparr>, NoFile), Inr [OutOfStock])"
    by (simp add: Let_def b)
  from mark_medicine_taken_spec [of builtins0 "'' 1 ''" 1 "alice\<lparr>medicines := [aspirin 7]\<rparr>" NoFile]
    h1 h4
  have c7: "\<exists>f'. mark_medicine_taken builtins0 '' 1 '' (alice\<lparr>medicines := [aspirin 7]\<rparr>, NoFile)
          = ((alice\<lparr>medicines := [(aspirin 6)\<lparr>taken_today := 1\<rparr>]\<rparr>, f'),
             Inr [MedicineTaken ''Aspirin'', RemainingStock 6])
        \<and> load_user ''alice'' f'
          = Inr (Some (alice\<lparr>medicines := [(aspirin 6)\<lparr>taken_today := 1\<rparr>]\<rparr>))"
    using a [of 7] by (auto simp: Let_def b n)
  from mark_medicine_taken_spec [of builtins0 "'' 1 ''" 1 "alice\<lparr>medicines := [aspirin 6]\<rparr>" NoFile]
    h1 h4
  have c6: "\<exists>f'. mark_medicine_taken builtins0 '' 1 '' (alice\<lparr>medicines := [aspirin 6]\<rparr>, NoFile)
          = ((alice\<lparr>medicines := [(aspirin 5)\<lparr>taken_today := 1\<rparr>]\<rparr>, f'),
             Inr [MedicineTaken ''Aspirin'', RemainingStock 5, LowStockWarning])"
    using a [of 6] by (auto simp: Let_def b n)
  from h1 h4 c0 c7 c6 show ?thesis by (intro conjI)
qed

section \<open>Properties of completing an appointment\<close>

subsection \<open>Positions and the filtered list\<close>

lemma map_nth_filter_positions:
  "map (nth zs) (filter (\<lambda>i. P (zs ! i)) [0 ..< length zs]) = filter P zs"
proof -
  have "filter P zs = filter P (map (nth zs) [0 ..< length zs])"
    by (simp only: map_nth)
  also have "\<dots> = map (nth zs) (filter (P \<circ> nth zs) [0 ..< length zs])"
    by (simp only: filter_map)
  finally show ?thesis by (simp add: comp_def)
qed

lemma filter_positions_count:
  "k < length (filter Q [0 ..< n]) \<Longrightarrow> length (filter Q [0 ..< filter Q [0 ..< n] ! k]) = k"
proof (induction n)
  case 0
  then show ?case by simp
next
  case (Suc n)
  show ?case
  proof (cases "k < length (filter Q [0 ..< n])")
    case True
    then have "filter Q [0 ..< Suc n] ! k = filter Q [0 ..< n] ! k"
      by (simp add: nth_append)
    with Suc.IH [OF True] show ?thesis by simp
  next
    case False
    with Suc.prems have "Q n" and k: "k = length (filter Q [0 ..< n])"
      by (auto split: if_splits)
    then have "filter Q [0 ..< Suc n] ! k = n" by (simp add: nth_append)
    with k show ?thesis by simp
  qed
qed

lemma filter_take_positions:
  assumes "i \<le> length zs"
  shows "length (filter P (take i zs)) = length (filter (\<lambda>j. P (zs ! j)) [0 ..< i])"
proof -
  have "take i zs = map (nth zs) [0 ..< i]"
    using assms by (auto simp: list_eq_iff_nth_eq)
  then have "filter P (take i zs) = map (nth zs) (filter (P \<circ> nth zs) [0 ..< i])"
    by (simp only: filter_map)
  then show ?thesis by (simp add: comp_def)
qed

lemma upcoming_positions_zip:
  assumes "length days = length appts"
  shows "upcoming_positions days appts
           = filter (\<lambda>i. (\<lambda>(a, d). 0 \<le> d \<and> \<not> completed a) (zip appts days ! i))
               [0 ..< length (zip appts days)]"
  unfolding upcoming_positions_def using assms
  by (intro filter_cong) simp_all

text \<open>The positions the model keeps are the positions of the elements of the filtered list
  the source builds, in the same order.\<close>

lemma upcoming_positions_filter:
  assumes "length days = length appts"
  shows "map (\<lambda>i. (appts ! i, days ! i)) (upcoming_positions days appts)
           = filter (\<lambda>(a, d). 0 \<le> d \<and> \<not> completed a) (zip appts days)"
proof -
  let ?zs = "zip appts days"
  let ?P = "\<lambda>(a, d). 0 \<le> d \<and> \<not> completed a"
  have "map (\<lambda>i. (appts ! i, days ! i)) (upcoming_positions days appts)
          = map (nth ?zs) (upcoming_positions days appts)"
    using assms by (intro map_cong) (auto simp: upcoming_positions_def)
  also have "\<dots> = filter ?P ?zs"
    unfolding upcoming_positions_zip [OF assms] by (rule map_nth_filter_positions)
  finally show ?thesis .
qed

lemma upcoming_positions_count:
  assumes "length days = length appts" and "k < length (upcoming_positions days appts)"
  shows "length (filter (\<lambda>(a, d). 0 \<le> d \<and> \<not> completed a)
            (take (upcoming_positions days appts ! k) (zip appts days))) = k"
proof -
  let ?zs = "zip appts days"
  let ?Q = "\<lambda>i. (\<lambda>(a, d). 0 \<le> d \<and> \<not> completed a) (?zs ! i)"
  let ?i = "upcoming_positions days appts ! k"
  have u: "upcoming_positions days appts = filter ?Q [0 ..< length ?zs]"
    by (rule upcoming_positions_zip [OF assms(1)])
  have "?i < length appts" using upcoming_positions_nth [OF assms(2)] by simp
  then have "?i \<le> length ?zs" using assms(1) by simp
  then have "length (filter (\<lambda>(a, d). 0 \<le> d \<and> \<not> completed a) (take ?i ?zs))
               = length (filter ?Q [0 ..< ?i])"
    by (rule filter_take_positions)
  also have "\<dots> = k"
    using assms(2) unfolding u by (rule filter_positions_count)
  finally show ?thesis .
qed

text \<open>
  Claim C6. Let the dates of the user's appointments be dates and the database file one that
  \<open>save_user\<close> can extend, and let \<open>upcoming\<close> be the appointments with
  \<open>days_until \<ge> 0\<close> that are not completed, in list order. If \<open>upcoming\<close> is empty the
  operation fails (no appointments, or no upcoming appointments) and changes nothing. If the
  line typed is an integer outside \<open>1 .. length upcoming\<close> it fails with an invalid choice
  and changes nothing. If it is an integer \<open>choice\<close> inside, the appointment selected is
  element \<open>choice - 1\<close> of \<open>upcoming\<close>, not of the user's list: it stands at the position
  \<open>i\<close> of the user's list before which exactly \<open>choice - 1\<close> upcoming appointments stand;
  that appointment gets \<open>completed = True\<close>, nothing else changes, and the user is saved
  (loading the user from the file gives the updated user). A line that is not an integer
  is an invalid input and changes nothing.
\<close>

theorem mark_appointment_completed_spec:
  assumes "map_err (days_until B clk) (appointments u) = Inr days" and "db_ok f"
  shows "let upcoming = filter (\<lambda>(a, d). 0 \<le> d \<and> \<not> completed a) (zip (appointments u) days)
         in (upcoming = [] \<longrightarrow>
               mark_appointment_completed B clk choice_in (u, f)
                 = ((u, f), Inr [if appointments u = [] then NoAppointments
                                 else NoUpcomingAppointments]))
          \<and> (upcoming \<noteq> [] \<and> int_of_str B (str_strip B choice_in) = None \<longrightarrow>
               mark_appointment_completed B clk choice_in (u, f) = ((u, f), Inr [InvalidInput]))
          \<and> (\<forall>choice. upcoming \<noteq> [] \<and> int_of_str B (str_strip B choice_in) = Some choice \<longrightarrow>
               (choice < 1 \<or> int (length upcoming) < choice \<longrightarrow>
                  mark_appointment_completed B clk choice_in (u, f)
                    = ((u, f), Inr [InvalidChoice]))
             \<and> (1 \<le> choice \<and> choice \<le> int (length upcoming) \<longrightarrow>
                  (\<exists>i f'. i < length (appointments u)
                     \<and> upcoming ! nat (choice - 1) = (appointments u ! i, days ! i)
                     \<and> length (filter (\<lambda>(a, d). 0 \<le> d \<and> \<not> completed a)
                                 (take i (zip (appointments u) days))) = nat (choice - 1)
                     \<and> mark_appointment_completed B clk choice_in (u, f)
                         = ((u\<lparr>appointments := (appointments u)
                                  [i := (appointments u ! i)\<lparr>completed := True\<rparr>]\<rparr>, f'),
                            Inr [AppointmentCompleted (title (appointments u ! i))])
                     \<and> save_user (u\<lparr>appointments := (appointments u)
                                  [i := (appointments u ! i)\<lparr>completed := True\<rparr>]\<rparr>) f = Inr f'
                     \<and> load_user (username u) f'
                         = Inr (Some (u\<lparr>appointments := (appointments u)
                                  [i := (appointments u ! i)\<lparr>completed := True\<rparr>]\<rparr>)))))"
proof -
  define ups where "ups = upcoming_positions days (appointments u)"
  define upcoming where
    "upcoming = filter (\<lambda>(a, d). 0 \<le> d \<and> \<not> completed a) (zip (appointments u) days)"
  have len: "length days = length (appointments u)"
    using assms(1) by (rule map_err_length)
  have m: "map (\<lambda>i. (appointments u ! i, days ! i)) ups = upcoming"
    unfolding ups_def upcoming_def using len by (rule upcoming_positions_filter)
  then have lu: "length ups = length upcoming" by (metis length_map)
  then have e: "ups = [] \<longleftrightarrow> upcoming = []" by (metis length_0_conv)
  have none: "appointments u = [] \<Longrightarrow> upcoming = []"
    by (simp add: upcoming_def)
  have c1: "mark_appointment_completed B clk choice_in (u, f)
                 = ((u, f), Inr [if appointments u = [] then NoAppointments
                                 else NoUpcomingAppointments])" if "upcoming = []"
    using that e assms(1)
    by (simp add: mark_appointment_completed_def ups_def [symmetric])
  have c2: "mark_appointment_completed B clk choice_in (u, f) = ((u, f), Inr [InvalidInput])"
    if "upcoming \<noteq> []" "int_of_str B (str_strip B choice_in) = None"
    using that e assms(1) none
    by (auto simp: mark_appointment_completed_def ups_def [symmetric])
  have c3: "mark_appointment_completed B clk choice_in (u, f) = ((u, f), Inr [InvalidChoice])"
    if "upcoming \<noteq> []" "int_of_str B (str_strip B choice_in) = Some choice"
      "choice < 1 \<or> int (length upcoming) < choice" for choice
    using that e assms(1) none lu
    by (auto simp: mark_appointment_completed_def ups_def [symmetric])
  have c4: "\<exists>i f'. i < length (appointments u)
                     \<and> upcoming ! nat (choice - 1) = (appointments u ! i, days ! i)
                     \<and> length (filter (\<lambda>(a, d). 0 \<le> d \<and> \<not> completed a)
                                 (take i (zip (appointments u) days))) = nat (choice - 1)
                     \<and> mark_appointment_completed B clk choice_in (u, f)
                         = ((u\<lparr>appointments := (appointments u)
                                  [i := (appointments u ! i)\<lparr>completed := True\<rparr>]\<rparr>, f'),
                            Inr [AppointmentCompleted (title (appointments u ! i))])
                     \<and> save_user (u\<lparr>appointments := (appointments u)
                                  [i := (appointments u ! i)\<lparr>completed := True\<rparr>]\<rparr>) f = Inr f'
                     \<and> load_user (username u) f'
                         = Inr (Some (u\<lparr>appointments := (appointments u)
                                  [i := (appointments u ! i)\<lparr>completed := True\<rparr>]\<rparr>))"
    if ne: "upcoming \<noteq> []" and ch: "int_of_str B (str_strip B choice_in) = Some choice"
      and rg: "1 \<le> choice \<and> choice \<le> int (length upcoming)" for choice
  proof -
    define k where "k = nat (choice - 1)"
    define i where "i = ups ! k"
    define u' where "u' = u\<lparr>appointments := (appointments u)
                                  [i := (appointments u ! i)\<lparr>completed := True\<rparr>]\<rparr>"
    have k: "k < length ups" using rg lu by (simp add: k_def) linarith
    have i: "i < length (appointments u)"
      using upcoming_positions_nth [of k days "appointments u"] k
      by (simp add: i_def ups_def)
    have sel: "upcoming ! k = (appointments u ! i, days ! i)"
      using k by (simp add: m [symmetric] i_def)
    have cnt: "length (filter (\<lambda>(a, d). 0 \<le> d \<and> \<not> completed a)
                                 (take i (zip (appointments u) days))) = k"
      using upcoming_positions_count [OF len, of k] k by (simp add: i_def ups_def)
    from save_user_total [OF assms(2)] obtain f' where s: "save_user u' f = Inr f'" by blast
    have l: "load_user (username u) f' = Inr (Some u')"
      using load_user_save_user [OF s] by (simp add: u'_def)
    have ane: "appointments u \<noteq> []" using none ne by blast
    have une: "ups \<noteq> []" using e ne by simp
    have rg': "1 \<le> choice \<and> choice \<le> int (length ups)" using rg lu by simp
    have "mark_appointment_completed B clk choice_in (u, f)
            = ((u', f'), Inr [AppointmentCompleted (title (appointments u ! i))])"
      using ane une ch rg' s assms(1)
      by (simp add: mark_appointment_completed_def ups_def [symmetric] k_def [symmetric]
          i_def [symmetric] u'_def [symmetric] Let_def)
    with i sel cnt s l show ?thesis
      unfolding u'_def k_def by blast
  qed
  from c1 c2 c3 c4 show ?thesis
    unfolding Let_def upcoming_def [symmetric] by blast
qed

theorem mark_appointment_completed_spec_witness:
  "map_err (days_until builtins0 clock0)
      [checkup ''2024-01-09'', (checkup ''2024-01-10'')\<lparr>completed := True\<rparr>,
       checkup ''2024-01-12'', checkup ''2024-01-20''] = Inr [- 1, 0, 2, 10]
   \<and> db_ok NoFile
   \<and> int_of_str builtins0 (str_strip builtins0 ''1'') = Some 1
   \<and> filter (\<lambda>(a, d). 0 \<le> d \<and> \<not> completed a)
        (zip [checkup ''2024-01-09'', (checkup ''2024-01-10'')\<lparr>completed := True\<rparr>,
              checkup ''2024-01-12'', checkup ''2024-01-20''] [- 1, 0, 2, 10 :: int])
       = [(checkup ''2024-01-12'', 2), (checkup ''2024-01-20'', 10)]
   \<and> fst (fst (mark_appointment_completed builtins0 clock0 ''1''
        (alice\<lparr>appointments :=
            [checkup ''2024-01-09'', (checkup ''2024-01-10'')\<lparr>completed := True\<rparr>,
             checkup ''2024-01-12'', checkup ''2024-01-20'']\<rparr>, NoFile)))
       = alice\<lparr>appointments :=
            [checkup ''2024-01-09'', (checkup ''2024-01-10'')\<lparr>completed := True\<rparr>,
             (checkup ''2024-01-12'')\<lparr>completed := True\<rparr>, checkup ''2024-01-20'']\<rparr>
   \<and> mark_appointment_completed builtins0 clock0 ''3''
        (alice\<lparr>appointments :=
            [checkup ''2024-01-09'', (checkup ''2024-01-10'')\<lparr>completed := True\<rparr>,
             checkup ''2024-01-12'', checkup ''2024-01-20'']\<rparr>, NoFile)
       = ((alice\<lparr>appointments :=
            [checkup ''2024-01-09'', (checkup ''2024-01-10'')\<lparr>completed := True\<rparr>,
             checkup ''2024-01-12'', checkup ''2024-01-20'']\<rparr>, NoFile), Inr [InvalidChoice])"
proof -
  let ?as = "[checkup ''2024-01-09'', (checkup ''2024-01-10'')\<lparr>completed := True\<rparr>,
       checkup ''2024-01-12'', checkup ''2024-01-20'']"
  let ?u = "alice\<lparr>appointments := ?as\<rparr>"
  let ?days = "[- 1, 0, 2, 10] :: int list"
  have h1: "map_err (days_until builtins0 clock0) (appointments ?u) = Inr ?days"
    by (simp add: days_until_def builtins0_def clock0_def toy_ordinal_def checkup_def
        Appointment_def)
  have h2: "db_ok NoFile" by (simp add: db_ok_def load_data_def dict_get_def)
  have p1: "int_of_str builtins0 (str_strip builtins0 ''1'') = Some 1"
    by (simp add: builtins0_def ascii_strip_def ascii_int_def ascii_isdigit_def
        is_ascii_digit_def digits_value_def)
  have p3: "int_of_str builtins0 (str_strip builtins0 ''3'') = Some 3"
    by (simp add: builtins0_def ascii_strip_def ascii_int_def ascii_isdigit_def
        is_ascii_digit_def digits_value_def)
  have up: "filter (\<lambda>(a, d). 0 \<le> d \<and> \<not> completed a) (zip (appointments ?u) ?days)
       = [(checkup ''2024-01-12'', 2), (checkup ''2024-01-20'', 10)]"
    by (simp add: checkup_def Appointment_def)
  have r3: "mark_appointment_completed builtins0 clock0 ''3'' (?u, NoFile)
       = ((?u, NoFile), Inr [InvalidChoice])"
    using mark_appointment_completed_spec [OF h1 h2, of "''3''"] p3
    unfolding Let_def up by simp
  have "\<exists>i f'. i < length (appointments ?u)
      \<and> (checkup ''2024-01-12'', 2) = (appointments ?u ! i, ?days ! i)
      \<and> mark_appointment_completed builtins0 clock0 ''1'' (?u, NoFile)
          = ((?u\<lparr>appointments := (appointments ?u)
                 [i := (appointments ?u ! i)\<lparr>completed := True\<rparr>]\<rparr>, f'),
             Inr [AppointmentCompleted (title (appointments ?u ! i))])"
    using mark_appointment_completed_spec [OF h1 h2, of "''1''"] p1
    unfolding Let_def up by auto
  then obtain i f' where i: "i < length (appointments ?u)"
    and sel: "(checkup ''2024-01-12'', 2) = (appointments ?u ! i, ?days ! i)"
    and r: "mark_appointment_completed builtins0 clock0 ''1'' (?u, NoFile)
          = ((?u\<lparr>appointments := (appointments ?u)
                 [i := (appointments ?u ! i)\<lparr>completed := True\<rparr>]\<rparr>, f'),
             Inr [AppointmentCompleted (title (appointments ?u ! i))])"
    by blast
  from i have "i = 0 \<or> i = 1 \<or> i = 2 \<or> i = 3" by auto
  with sel have "i = 2" by auto
  with r have r1: "fst (fst (mark_appointment_completed builtins0 clock0 ''1'' (?u, NoFile)))
       = alice\<lparr>appointments :=
            [checkup ''2024-01-09'', (checkup ''2024-01-10'')\<lparr>completed := True\<rparr>,
             (checkup ''2024-01-12'')\<lparr>completed := True\<rparr>, checkup ''2024-01-20'']\<rparr>"
    by simp
  have h1': "map_err (days_until builtins0 clock0) ?as = Inr ?days"
    using h1 by simp
  have up': "filter (\<lambda>(a, d). 0 \<le> d \<and> \<not> completed a) (zip ?as ?days)
       = [(checkup ''2024-01-12'', 2), (checkup ''2024-01-20'', 10)]"
    using up by simp
  from h1' h2 p1 up' r1 r3 show ?thesis by (intro conjI)
qed

section \<open>Properties of the stock\<close>

lemma add_medicine_medicines:
  assumes "add_medicine B clk n d c e st (u, f) = ((u', f'), r)"
  shows "medicines u' = medicines u
       \<or> (\<exists>m. medicines u' = medicines u @ [m] \<and> stock m = initial_stock B st)"
  using assms
  by (auto simp: add_medicine_def Let_def Medicine_def
      split: if_splits option.splits sum.splits)

lemma add_appointment_medicines:
  assumes "add_appointment B clk t d dt tm l (u, f) = ((u', f'), r)"
  shows "medicines u' = medicines u"
  using assms
  by (auto simp: add_appointment_def Let_def split: if_splits option.splits sum.splits)

lemma mark_medicine_taken_medicines:
  assumes "mark_medicine_taken B c (u, f) = ((u', f'), r)"
  shows "medicines u' = medicines u
       \<or> (\<exists>i m'. i < length (medicines u) \<and> 0 < stock (medicines u ! i)
            \<and> take_dose (medicines u ! i) = (True, m')
            \<and> stock m' = stock (medicines u ! i) - 1
            \<and> medicines u' = (medicines u)[i := m'])"
proof (cases "medicines u \<noteq> [] \<and> (\<exists>choice. int_of_str B (str_strip B c) = Some choice
      \<and> 1 \<le> choice \<and> choice \<le> int (length (medicines u))
      \<and> fst (take_dose (medicines u ! nat (choice - 1))))")
  case True
  then obtain choice where ne: "medicines u \<noteq> []"
    and ch: "int_of_str B (str_strip B c) = Some choice"
    and rg: "1 \<le> choice" "choice \<le> int (length (medicines u))"
    and tk: "fst (take_dose (medicines u ! nat (choice - 1)))"
    by blast
  define i where "i = nat (choice - 1)"
  obtain m' where td: "take_dose (medicines u ! i) = (True, m')"
    using tk by (cases "take_dose (medicines u ! i)") (simp add: i_def)
  have i: "i < length (medicines u)" using rg unfolding i_def by linarith
  from take_dose_cases [OF td]
  have pos: "0 < stock (medicines u ! i)" and st: "stock m' = stock (medicines u ! i) - 1"
    by simp_all
  have "medicines u' = (medicines u)[i := m']"
    using assms ne ch rg td
    by (auto simp: mark_medicine_taken_def i_def [symmetric] Let_def split: sum.splits)
  with i pos td st show ?thesis by blast
next
  case False
  have "u' = u"
  proof (cases "medicines u = []")
    case True
    with assms show ?thesis by (simp add: mark_medicine_taken_def)
  next
    case ne: False
    show ?thesis
    proof (cases "int_of_str B (str_strip B c)")
      case None
      with assms ne show ?thesis by (simp add: mark_medicine_taken_def)
    next
      case (Some choice)
      show ?thesis
      proof (cases "1 \<le> choice \<and> choice \<le> int (length (medicines u))")
        case rg: True
        with False ne Some have "\<not> fst (take_dose (medicines u ! nat (choice - 1)))"
          by simp
        with assms ne Some rg show ?thesis
          by (auto simp: mark_medicine_taken_def Let_def split: prod.splits)
      next
        case rg: False
        with assms ne Some show ?thesis by (simp add: mark_medicine_taken_def)
      qed
    qed
  qed
  then show ?thesis by simp
qed

lemma mark_appointment_completed_medicines:
  assumes "mark_appointment_completed B clk c (u, f) = ((u', f'), r)"
  shows "medicines u' = medicines u"
  using assms
  by (auto simp: mark_appointment_completed_def Let_def
      split: if_splits option.splits sum.splits)

lemma change_password_medicines:
  assumes "change_password B c n k (u, f) = ((u', f'), r)"
  shows "medicines u' = medicines u"
  using assms
  by (auto simp: change_password_def Let_def split: if_splits option.splits sum.splits)

lemma exec_medicines:
  assumes "exec B clk operation (u, f) = ((u', f'), r)"
  shows "medicines u' = medicines u
       \<or> (\<exists>n d c e st m. operation = AddMedicine n d c e st
            \<and> medicines u' = medicines u @ [m] \<and> stock m = initial_stock B st)
       \<or> (\<exists>c i m'. operation = MarkMedicineTaken c
            \<and> i < length (medicines u) \<and> 0 < stock (medicines u ! i)
            \<and> take_dose (medicines u ! i) = (True, m')
            \<and> stock m' = stock (medicines u ! i) - 1
            \<and> medicines u' = (medicines u)[i := m'])"
proof (cases operation)
  case (AddMedicine n d c e st)
  with assms add_medicine_medicines [of B clk n d c e st u f u' f' r] show ?thesis by auto
next
  case (AddAppointment t d dt tm l)
  with assms show ?thesis by (simp add: add_appointment_medicines)
next
  case (MarkMedicineTaken c)
  with assms mark_medicine_taken_medicines [of B c u f u' f' r] show ?thesis by auto
next
  case (MarkAppointmentCompleted c)
  with assms show ?thesis by (simp add: mark_appointment_completed_medicines)
next
  case (ChangePassword c n k)
  with assms show ?thesis by (simp add: change_password_medicines)
next
  case CheckNotifications
  with assms show ?thesis by auto
next
  case ViewWeeklySummary
  with assms show ?thesis by auto
qed

lemma exec_nonneg:
  assumes "exec B clk operation (u, f) = ((u', f'), r)"
    and "\<forall>m\<in>set (medicines u). 0 \<le> stock m"
    and "nonneg_stock_input B operation"
  shows "\<forall>m\<in>set (medicines u'). 0 \<le> stock m"
  using exec_medicines [OF assms(1)]
proof (elim disjE exE conjE)
  assume "medicines u' = medicines u"
  with assms(2) show ?thesis by simp
next
  fix n d c e st m
  assume "operation = AddMedicine n d c e st" "medicines u' = medicines u @ [m]"
    "stock m = initial_stock B st"
  with assms(2,3) show ?thesis by simp
next
  fix c i m'
  assume *: "0 < stock (medicines u ! i)" "stock m' = stock (medicines u ! i) - 1"
    "medicines u' = (medicines u)[i := m']"
  show ?thesis
  proof
    fix x assume "x \<in> set (medicines u')"
    then have "x = m' \<or> x \<in> set (medicines u)"
      using * set_update_subset_insert [of "medicines u" i m'] by auto
    with * assms(2) show "0 \<le> stock x" by auto
  qed
qed

lemma run_nonneg:
  assumes "run B ops (u, f) = (u', f')"
    and "\<forall>m\<in>set (medicines u). 0 \<le> stock m"
    and "\<forall>x\<in>set ops. nonneg_stock_input B (snd x)"
  shows "\<forall>m\<in>set (medicines u'). 0 \<le> stock m"
  using assms
proof (induction ops arbitrary: u f)
  case Nil
  then show ?case by simp
next
  case (Cons x rest)
  obtain clk operation where x: "x = (clk, operation)" by (cases x)
  obtain u1 f1 r where e: "exec B clk operation (u, f) = ((u1, f1), r)"
    by (metis surj_pair)
  have n: "nonneg_stock_input B operation" using Cons.prems(3) x by simp
  have s: "\<forall>m\<in>set (medicines u1). 0 \<le> stock m"
    using e Cons.prems(2) n by (rule exec_nonneg)
  show ?case
  proof (cases r)
    case (Inl err)
    with Cons.prems(1) x e have "u' = u1" by simp
    with s show ?thesis by simp
  next
    case (Inr printed)
    with Cons.prems(1) x e have "run B rest (u1, f1) = (u', f')" by simp
    moreover have "\<forall>y\<in>set rest. nonneg_stock_input B (snd y)" using Cons.prems(3) by simp
    ultimately show ?thesis using Cons.IH s by blast
  qed
qed

text \<open>
  Claim C3, as stated: no operation, \<open>add_medicine\<close> with an arbitrary stock input
  included, creates a medicine with negative stock. It fails on the code: \<open>add_medicine\<close>
  stores the integer typed as it is, so typing \<open>-5\<close> creates a medicine with stock \<open>-5\<close>.
\<close>

theorem add_medicine_negative_stock_counterexample:
  "fst (fst (add_medicine builtins0 clock0 ''Aspirin'' ''100mg'' ''2'' '''' ''-5'' (alice, NoFile)))
     = alice\<lparr>medicines := [aspirin (- 5)]\<rparr>
   \<and> stock (aspirin (- 5)) < 0"
  by code_simp

text \<open>
  Claim C3, amended. An operation leaves the list of medicines as it is, or it is
  \<open>add_medicine\<close> and appends one medicine whose stock is the integer typed (30 when the
  line is empty or not an integer), whatever its sign, or it is a successful dose-taking
  and decrements one stock, which was positive, by 1. So along every session no stock ever
  increases and a stock that is not negative stays so; and if the stocks are not negative at
  the start and no negative stock is typed, no medicine ever has a negative stock.
\<close>

theorem stock_never_increases:
  "(exec B clk operation (u, f) = ((u1, f1), r) \<longrightarrow>
       medicines u1 = medicines u
     \<or> (\<exists>n d c e st m. operation = AddMedicine n d c e st
          \<and> medicines u1 = medicines u @ [m] \<and> stock m = initial_stock B st)
     \<or> (\<exists>c i m'. operation = MarkMedicineTaken c
          \<and> i < length (medicines u) \<and> 0 < stock (medicines u ! i)
          \<and> take_dose (medicines u ! i) = (True, m')
          \<and> stock m' = stock (medicines u ! i) - 1
          \<and> medicines u1 = (medicines u)[i := m']))
   \<and> (run B ops (u, f) = (u', f') \<longrightarrow>
        length (medicines u) \<le> length (medicines u')
      \<and> (\<forall>i<length (medicines u).
            stock (medicines u' ! i) \<le> stock (medicines u ! i)
            \<and> (0 \<le> stock (medicines u ! i) \<longrightarrow> 0 \<le> stock (medicines u' ! i)))
      \<and> ((\<forall>m\<in>set (medicines u). 0 \<le> stock m)
           \<and> (\<forall>x\<in>set ops. nonneg_stock_input B (snd x))
          \<longrightarrow> (\<forall>m\<in>set (medicines u'). 0 \<le> stock m)))"
proof (intro conjI impI)
  assume "exec B clk operation (u, f) = ((u1, f1), r)"
  then show "medicines u1 = medicines u
     \<or> (\<exists>n d c e st m. operation = AddMedicine n d c e st
          \<and> medicines u1 = medicines u @ [m] \<and> stock m = initial_stock B st)
     \<or> (\<exists>c i m'. operation = MarkMedicineTaken c
          \<and> i < length (medicines u) \<and> 0 < stock (medicines u ! i)
          \<and> take_dose (medicines u ! i) = (True, m')
          \<and> stock m' = stock (medicines u ! i) - 1
          \<and> medicines u1 = (medicines u)[i := m'])"
    by (rule exec_medicines)
next
  assume r: "run B ops (u, f) = (u', f')"
  note m = run_medicines [OF r]
  show "length (medicines u) \<le> length (medicines u')" using m by blast
  show "\<forall>i<length (medicines u).
            stock (medicines u' ! i) \<le> stock (medicines u ! i)
            \<and> (0 \<le> stock (medicines u ! i) \<longrightarrow> 0 \<le> stock (medicines u' ! i))"
    using m by blast
  assume "(\<forall>m\<in>set (medicines u). 0 \<le> stock m)
           \<and> (\<forall>x\<in>set ops. nonneg_stock_input B (snd x))"
  then show "\<forall>m\<in>set (medicines u'). 0 \<le> stock m"
    using run_nonneg [OF r] by blast
qed

theorem stock_never_increases_witness:
  "list_all (\<lambda>m. 0 \<le> stock m) (medicines (alice\<lparr>medicines := [aspirin 1]\<rparr>))
   \<and> list_all (\<lambda>x. nonneg_stock_input builtins0 (snd x))
        [(clock0, AddMedicine ''Aspirin'' ''100mg'' ''2'' '''' ''3''),
         (clock0, MarkMedicineTaken ''1''), (clock0, MarkMedicineTaken ''1'')]
   \<and> fst (run builtins0
        [(clock0, AddMedicine ''Aspirin'' ''100mg'' ''2'' '''' ''3''),
         (clock0, MarkMedicineTaken ''1''), (clock0, MarkMedicineTaken ''1'')]
        (alice\<lparr>medicines := [aspirin 1]\<rparr>, NoFile))
       = alice\<lparr>medicines := [(aspirin 0)\<lparr>taken_today := 1\<rparr>, aspirin 3]\<rparr>
   \<and> list_all (\<lambda>m. 0 \<le> stock m)
        (medicines (fst (run builtins0
          [(clock0, AddMedicine ''Aspirin'' ''100mg'' ''2'' '''' ''3''),
           (clock0, MarkMedicineTaken ''1''), (clock0, MarkMedicineTaken ''1'')]
          (alice\<lparr>medicines := [aspirin 1]\<rparr>, NoFile))))"
proof -
  let ?u = "alice\<lparr>medicines := [aspirin 1]\<rparr>"
  let ?ops = "[(clock0, AddMedicine ''Aspirin'' ''100mg'' ''2'' '''' ''3''),
         (clock0, MarkMedicineTaken ''1''), (clock0, MarkMedicineTaken ''1'')]"
  let ?s = "run builtins0 ?ops (?u, NoFile)"
  have h1: "\<forall>m\<in>set (medicines ?u). 0 \<le> stock m"
    by (simp add: aspirin_def Medicine_def)
  have i: "initial_stock builtins0 ''3'' = 3"
    by (simp add: initial_stock_def builtins0_def ascii_strip_def ascii_int_def
        ascii_isdigit_def is_ascii_digit_def digits_value_def)
  have h2: "\<forall>x\<in>set ?ops. nonneg_stock_input builtins0 (snd x)"
    by (simp add: i)
  have r: "?s = (fst ?s, snd ?s)" by simp
  have e: "fst ?s = alice\<lparr>medicines := [(aspirin 0)\<lparr>taken_today := 1\<rparr>, aspirin 3]\<rparr>"
    by code_simp
  from stock_never_increases [of builtins0 clock0 CheckNotifications ?u NoFile ?u NoFile "Inr []"
      ?ops "fst ?s" "snd ?s"] r h1 h2
  have c: "\<forall>m\<in>set (medicines (fst ?s)). 0 \<le> stock m" by blast
  have l1: "list_all (\<lambda>m. 0 \<le> stock m) (medicines ?u)"
    using h1 by (simp only: list_all_iff)
  have l2: "list_all (\<lambda>x. nonneg_stock_input builtins0 (snd x)) ?ops"
    using h2 by (simp only: list_all_iff)
  have l3: "list_all (\<lambda>m. 0 \<le> stock m) (medicines (fst ?s))"
    using c by (simp only: list_all_iff)
  from l1 l2 e l3 show ?thesis by (intro conjI)
qed

end
